theory Spec2Isabelle
  imports Main "HOL-Library.Finite_Map" "HOL-Library.Word"
begin

section \<open>JavaScript values\<close>

text \<open>
  The file function of a storage returns an arbitrary JavaScript value, and
  \<^verbatim>\<open>fromStream\<close> inspects it with \<^verbatim>\<open>typeof\<close>, truthiness tests, property reads and
  object spread. Values are a datatype; an object is the finite map of its own enumerable
  properties. Numbers are the integers (the doubles that print as their decimal digits).
  An array is an object whose own enumerable properties are its indices.
\<close>

datatype jsval =
    JUndefined
  | JNull
  | JBool bool
  | JNum int
  | JStr string
  | JObj "(string, jsval) fmap"
  | JArr "jsval list"
  | JFunction
  | JSymbol
  | JBigInt int

text \<open>The \<^verbatim>\<open>typeof\<close> operator.\<close>

fun typeof :: "jsval \<Rightarrow> string" where
  "typeof JUndefined = ''undefined''"
| "typeof JNull = ''object''"
| "typeof (JBool b) = ''boolean''"
| "typeof (JNum n) = ''number''"
| "typeof (JStr s) = ''string''"
| "typeof (JObj ps) = ''object''"
| "typeof (JArr xs) = ''object''"
| "typeof JFunction = ''function''"
| "typeof JSymbol = ''symbol''"
| "typeof (JBigInt n) = ''bigint''"

text \<open>Truthiness, as the conditional operator and \<^verbatim>\<open>if\<close> test it.\<close>

fun truthy :: "jsval \<Rightarrow> bool" where
  "truthy JUndefined = False"
| "truthy JNull = False"
| "truthy (JBool b) = b"
| "truthy (JNum n) = (n \<noteq> 0)"
| "truthy (JStr s) = (s \<noteq> [])"
| "truthy (JObj ps) = True"
| "truthy (JArr xs) = True"
| "truthy JFunction = True"
| "truthy JSymbol = True"
| "truthy (JBigInt n) = (n \<noteq> 0)"

text \<open>Decimal digits of a natural number, and \<^verbatim>\<open>Number.prototype.toString\<close> on an integer.\<close>

definition digitChar :: "nat \<Rightarrow> char" where
  "digitChar d = ''0123456789'' ! d"

fun decimal :: "nat \<Rightarrow> string" where
  "decimal n = (if n < 10 then [digitChar n] else decimal (n div 10) @ [digitChar (n mod 10)])"

definition numberToString :: "int \<Rightarrow> string" where
  "numberToString n = (if n < 0 then CHR ''-'' # decimal (nat (- n)) else decimal (nat n))"

text \<open>
  \<^verbatim>\<open>fileSettings.toString()\<close>. \<^verbatim>\<open>fromStream\<close> calls it on strings and numbers only; the
  other cases are what the built-in prototypes print.
\<close>

fun toString :: "jsval \<Rightarrow> string" where
  "toString (JStr s) = s"
| "toString (JNum n) = numberToString n"
| "toString (JBool b) = (if b then ''true'' else ''false'')"
| "toString (JBigInt n) = numberToString n"
| "toString v = ''[object Object]''"

text \<open>The own enumerable properties of a value: what object spread copies.\<close>

definition indexed :: "jsval list \<Rightarrow> (string, jsval) fmap" where
  "indexed xs = fmap_of_list (zip (map decimal [0 ..< length xs]) xs)"

fun ownProps :: "jsval \<Rightarrow> (string, jsval) fmap" where
  "ownProps (JObj ps) = ps"
| "ownProps (JArr xs) = indexed xs"
| "ownProps (JStr s) = indexed (map (\<lambda>c. JStr [c]) s)"
| "ownProps v = fmempty"

text \<open>A property read \<^verbatim>\<open>v.k\<close> of a property that no prototype defines.\<close>

definition getProp :: "jsval \<Rightarrow> string \<Rightarrow> jsval" where
  "getProp v k = (case fmlookup (ownProps v) k of Some x \<Rightarrow> x | None \<Rightarrow> JUndefined)"

text \<open>An object literal \<^verbatim>\<open>{k1: v1, ...}\<close>.\<close>

definition object :: "(string \<times> jsval) list \<Rightarrow> jsval" where
  "object kvs = JObj (fmap_of_list kvs)"

section \<open>Errors and the platform\<close>

datatype js_error =
    Error string
  | TypeError string
  | BackendError string

type_synonym byte = "8 word"

text \<open>
  What the platform hands to one call of \<^verbatim>\<open>_mergeProps\<close>: the outcome of
  \<^verbatim>\<open>crypto.randomBytes(n, cb)\<close> and the identifier that \<^verbatim>\<open>new ObjectID()\<close> creates.
\<close>

record platform =
  randomBytes :: "nat \<Rightarrow> js_error + byte list"
  newObjectID :: jsval

section \<open>Default file information and generated names\<close>

definition defaults :: jsval where
  "defaults = object
     [(''metadata'', JNull),
      (''chunkSize'', JNum 261120),
      (''bucketName'', JStr ''fs''),
      (''aliases'', JNull)]"

definition hexDigit :: "nat \<Rightarrow> char" where
  "hexDigit d = ''0123456789abcdef'' ! d"

definition hexByte :: "byte \<Rightarrow> string" where
  "hexByte b = [hexDigit (unat b div 16), hexDigit (unat b mod 16)]"

text \<open>\<^verbatim>\<open>buffer.toString('hex')\<close>.\<close>

definition toHex :: "byte list \<Rightarrow> string" where
  "toHex buffer = concat (map hexByte buffer)"

text \<open>\<^verbatim>\<open>generateBytes\<close>: rejects with the error of \<^verbatim>\<open>randomBytes\<close>, or resolves with a name.\<close>

definition generateBytes :: "platform \<Rightarrow> js_error + jsval" where
  "generateBytes p =
     (case randomBytes p 16 of
        Inl err \<Rightarrow> Inl err
      | Inr buffer \<Rightarrow> Inr (object [(''filename'', JStr (toHex buffer))]))"

text \<open>An assignment \<^verbatim>\<open>obj.k = v\<close> on an object.\<close>

definition setProp :: "jsval \<Rightarrow> string \<Rightarrow> jsval \<Rightarrow> jsval" where
  "setProp obj k v = JObj (fmupd k v (ownProps obj))"

text \<open>
  \<^verbatim>\<open>_mergeProps(extra, fileSettings)\<close>. The variable \<^verbatim>\<open>previous\<close> at the return
  statement: a name is generated unless the filename of the file settings is truthy, and
  an identifier is added unless their id is truthy. The promise rejects when the name
  generation does.
\<close>

definition previous :: "platform \<Rightarrow> jsval \<Rightarrow> js_error + jsval" where
  "previous p fileSettings =
     (case (if truthy (getProp fileSettings ''filename'') then Inr (object [])
            else generateBytes p) of
        Inl err \<Rightarrow> Inl err
      | Inr prev \<Rightarrow>
          (let hasId = getProp fileSettings ''id''
           in Inr (if \<not> truthy hasId then setProp prev ''id'' (newObjectID p) else prev)))"

text \<open>The result spreads \<^verbatim>\<open>previous\<close>, \<^verbatim>\<open>defaults\<close>, \<^verbatim>\<open>extra\<close> and \<^verbatim>\<open>fileSettings\<close>, in this order.\<close>

definition mergeProps :: "platform \<Rightarrow> jsval \<Rightarrow> jsval \<Rightarrow> js_error + jsval" where
  "mergeProps p extra fileSettings =
     (case previous p fileSettings of
        Inl err \<Rightarrow> Inl err
      | Inr prev \<Rightarrow>
          Inr (JObj (ownProps prev ++\<^sub>f ownProps defaults ++\<^sub>f ownProps extra
                     ++\<^sub>f ownProps fileSettings)))"

section \<open>The file settings of an upload\<close>

text \<open>The file descriptor that the middleware passes with an upload.\<close>

record file_info =
  mimetype :: jsval

definition allowedTypes :: "string list" where
  "allowedTypes = [''undefined'', ''number'', ''string'', ''object'']"

text \<open>
  The check of \<^verbatim>\<open>fromStream\<close> on the value that \<^verbatim>\<open>_generate\<close> resolved with, and the
  settings object made of it.
\<close>

definition toSettings :: "jsval \<Rightarrow> js_error + jsval" where
  "toSettings fileSettings =
     (let setType = typeof fileSettings in
      if setType \<notin> set allowedTypes
      then Inl (Error (''Invalid type for file settings, got '' @ setType))
      else if fileSettings = JNull \<or> fileSettings = JUndefined then Inr (object [])
      else if setType = ''string'' \<or> setType = ''number''
      then Inr (object [(''filename'', JStr (toString fileSettings))])
      else Inr fileSettings)"

text \<open>\<^verbatim>\<open>file ? file.mimetype : undefined\<close>.\<close>

definition contentTypeOf :: "file_info option \<Rightarrow> jsval" where
  "contentTypeOf file = (case file of Some f \<Rightarrow> mimetype f | None \<Rightarrow> JUndefined)"

text \<open>
  The stream options of \<^verbatim>\<open>fromStream\<close>, from the value of the file function to the result
  of \<^verbatim>\<open>_mergeProps({contentType}, settings)\<close>.
\<close>

definition streamOptions :: "platform \<Rightarrow> file_info option \<Rightarrow> jsval \<Rightarrow> js_error + jsval" where
  "streamOptions p file fileSettings =
     (case toSettings fileSettings of
        Inl err \<Rightarrow> Inl err
      | Inr settings \<Rightarrow>
          mergeProps p (object [(''contentType'', contentTypeOf file)]) settings)"


section \<open>Backend handles\<close>

text \<open>
  A Db object and a MongoClient, each with what the backend reports of its link when
  \<^verbatim>\<open>_updateConnectionStatus\<close> asks: \<^verbatim>\<open>db.topology.isConnected()\<close>, and
  \<^verbatim>\<open>client.isConnected()\<close> where the client has that method.
\<close>

record db_handle =
  dbName :: string
  topologyConnected :: bool

record client_handle =
  clientName :: string
  isConnected :: "bool option"

text \<open>
  \<^verbatim>\<open>utils.getDatabase\<close> is not under src/. By the comment at its call in \<^verbatim>\<open>_setDb\<close> it
  finds the Db object behind a mongoose instance, a mongoose connection or a Db object.
  The model passes that Db object itself as the value given for \<^verbatim>\<open>db\<close>.
\<close>

definition getDatabase :: "db_handle \<Rightarrow> db_handle" where
  "getDatabase d = d"

section \<open>The connection cache\<close>

text \<open>
  Modelled from the spec: the module \<^verbatim>\<open>./cache\<close> is not under src/. A cache entry has
  a signature and a status among pending, opening, resolved and rejected, with the handles
  or the error; \<^verbatim>\<open>initialize\<close> registers a slot for a signature or reuses the one it has;
  the first caller moves the entry to opening; resolve and reject settle an entry once,
  and it is immutable thereafter; \<^verbatim>\<open>waitFor\<close> gives every caller the outcome of the
  entry. The signature is what the constructor passes to \<^verbatim>\<open>initialize\<close>: the url, the cache
  name and the connect options.
\<close>

record signature =
  sigUrl :: "string option"
  sigName :: string
  sigInit :: jsval

datatype entry_status =
    EPending
  | EOpening
  | EResolved db_handle "client_handle option"
  | ERejected js_error

record cache_entry =
  entrySignature :: signature
  status :: entry_status

type_synonym cache = "cache_entry list"

text \<open>The index of a slot: an object, so that a storage that caches holds a truthy index.\<close>

datatype cache_index = CacheIndex nat

fun findSlot :: "signature \<Rightarrow> cache \<Rightarrow> nat \<Rightarrow> nat option" where
  "findSlot sg [] i = None"
| "findSlot sg (e # es) i = (if entrySignature e = sg then Some i else findSlot sg es (Suc i))"

text \<open>Modelled from the spec: \<^verbatim>\<open>initialize(signature) -> index\<close> registers or reuses a slot.\<close>

definition initialize :: "cache \<Rightarrow> signature \<Rightarrow> cache_index \<times> cache" where
  "initialize c sg =
     (case findSlot sg c 0 of
        Some i \<Rightarrow> (CacheIndex i, c)
      | None \<Rightarrow> (CacheIndex (length c), c @ [\<lparr>entrySignature = sg, status = EPending\<rparr>]))"

text \<open>Modelled from the spec: \<^verbatim>\<open>get(index)\<close>, the entry of a slot.\<close>

fun getEntry :: "cache \<Rightarrow> cache_index \<Rightarrow> cache_entry option" where
  "getEntry c (CacheIndex i) = (if i < length c then Some (c ! i) else None)"

fun setStatus :: "cache \<Rightarrow> cache_index \<Rightarrow> entry_status \<Rightarrow> cache" where
  "setStatus c (CacheIndex i) s = (if i < length c then c[i := (c ! i)\<lparr>status := s\<rparr>] else c)"

text \<open>Modelled from the spec: \<^verbatim>\<open>isPending(index)\<close> and \<^verbatim>\<open>isOpening(index)\<close>.\<close>

definition isPending :: "cache \<Rightarrow> cache_index \<Rightarrow> bool" where
  "isPending c idx = (case getEntry c idx of Some e \<Rightarrow> status e = EPending | None \<Rightarrow> False)"

definition isOpening :: "cache \<Rightarrow> cache_index \<Rightarrow> bool" where
  "isOpening c idx = (case getEntry c idx of Some e \<Rightarrow> status e = EOpening | None \<Rightarrow> False)"

definition unsettled :: "cache \<Rightarrow> cache_index \<Rightarrow> bool" where
  "unsettled c idx = (isPending c idx \<or> isOpening c idx)"

text \<open>
  Modelled from the spec: \<^verbatim>\<open>resolve(index, db, client)\<close> and \<^verbatim>\<open>reject(index, error)\<close>
  settle a slot that is not settled yet.
\<close>

definition resolveEntry :: "cache \<Rightarrow> cache_index \<Rightarrow> db_handle \<Rightarrow> client_handle option \<Rightarrow> cache" where
  "resolveEntry c idx d cl = (if unsettled c idx then setStatus c idx (EResolved d cl) else c)"

definition rejectEntry :: "cache \<Rightarrow> cache_index \<Rightarrow> js_error \<Rightarrow> cache" where
  "rejectEntry c idx err = (if unsettled c idx then setStatus c idx (ERejected err) else c)"

text \<open>
  Modelled from the spec: \<^verbatim>\<open>waitFor(index)\<close>. The promise it returns is settled with the
  outcome of the entry once the entry has one; \<open>None\<close> is the promise still pending.
\<close>

definition waitFor :: "cache \<Rightarrow> cache_index \<Rightarrow> (js_error + db_handle \<times> client_handle option) option" where
  "waitFor c idx =
     (case getEntry c idx of
        Some e \<Rightarrow>
          (case status e of
             EResolved d cl \<Rightarrow> Some (Inr (d, cl))
           | ERejected err \<Rightarrow> Some (Inl err)
           | _ \<Rightarrow> None)
      | None \<Rightarrow> None)"

section \<open>The storage engine\<close>

subsection \<open>Configuration\<close>

text \<open>
  A value of the configuration that may be missing, given, or given as a promise
  (\<^verbatim>\<open>db\<close> and \<^verbatim>\<open>client\<close>).
\<close>

datatype 'a given = Missing | Given 'a | Promised

text \<open>
  The \<^verbatim>\<open>cache\<close> option: falsy, a string, or another truthy value.
\<close>

datatype cache_option = NoCache | CacheNamed string | CacheOn

record configuration =
  url :: "string option"
  options :: jsval
  cacheOpt :: cache_option
  dbOpt :: "db_handle given"
  clientOpt :: "client_handle given"

text \<open>\<^verbatim>\<open>configuration.url\<close> as a condition: a missing url and the empty string are falsy.\<close>

definition hasUrl :: "configuration \<Rightarrow> bool" where
  "hasUrl cfg = (case url cfg of None \<Rightarrow> False | Some u \<Rightarrow> u \<noteq> [])"

text \<open>\<^verbatim>\<open>Boolean(configuration.cache)\<close>.\<close>

fun cacheEnabled :: "cache_option \<Rightarrow> bool" where
  "cacheEnabled NoCache = False"
| "cacheEnabled (CacheNamed n) = (n \<noteq> [])"
| "cacheEnabled CacheOn = True"

text \<open>\<^verbatim>\<open>typeof configuration.cache === 'string' ? configuration.cache : 'default'\<close>.\<close>

fun cacheNameOf :: "cache_option \<Rightarrow> string" where
  "cacheNameOf (CacheNamed n) = n"
| "cacheNameOf c = ''default''"

subsection \<open>Signals, listeners and promises\<close>

datatype event = EvConnection | EvConnectionFailed | EvFile | EvStreamError | EvDbError

text \<open>A signal: an event emitted by the storage, with its arguments.\<close>

datatype signal =
    Connection "db_handle option" "client_handle option"
  | ConnectionFailed js_error
  | File jsval
  | StreamError js_error jsval
  | DbError js_error

fun eventOf :: "signal \<Rightarrow> event" where
  "eventOf (Connection d cl) = EvConnection"
| "eventOf (ConnectionFailed err) = EvConnectionFailed"
| "eventOf (File f) = EvFile"
| "eventOf (StreamError err opts) = EvStreamError"
| "eventOf (DbError err) = EvDbError"

text \<open>
  The listeners a storage can have: the closures \<^verbatim>\<open>done\<close> and \<^verbatim>\<open>fail\<close> of a call of
  \<^verbatim>\<open>ready\<close>, named by the promise they settle, and the listeners of the user, which the
  model numbers and whose calls it records.
\<close>

datatype listener = ReadyDone nat | ReadyFail nat | Observer nat

record registration =
  regEvent :: event
  regOnce :: bool
  regListener :: listener

datatype 'a promise = Pending | Resolved 'a | Rejected js_error

type_synonym connection = "db_handle option \<times> client_handle option"

text \<open>The events of the client that \<^verbatim>\<open>_setDb\<close> listens to.\<close>

datatype backend_event = BackendErrorEvent | ParseError | Timeout | Close

text \<open>A callback queued with \<^verbatim>\<open>process.nextTick\<close>.\<close>

datatype task = EmitConnection

text \<open>
  The promise that the \<^verbatim>\<open>then\<close> and \<^verbatim>\<open>catch\<close> handlers of \<^verbatim>\<open>_connect\<close> hang on: none, the
  promises given in the configuration, the connect operation of the storage itself, or
  the wait on a cache slot. The field \<open>outcome\<close> of a storage is what the promise of
  \<^verbatim>\<open>_resolveConnection\<close> settled with, once it has.
\<close>

datatype awaiting = NoWait | AwaitGiven | AwaitConnect | AwaitCache cache_index

subsection \<open>The state of a storage\<close>

record storage =
  db :: "db_handle option"
  client :: "client_handle option"
  connected :: bool
  connecting :: bool
  configuration :: configuration
  caching :: bool
  cacheName :: "string option"
  cacheIndex :: "cache_index option"
  error :: "js_error option"
  legacy :: bool
  storageOptions :: "jsval option"
  listeners :: "registration list"
  clientListeners :: "backend_event list"
  emitted :: "signal list"
  observed :: "(nat \<times> signal) list"
  ticks :: "task list"
  readyPromises :: "connection promise list"
  awaiting :: awaiting
  outcome :: "(js_error + db_handle \<times> client_handle option) option"
  connects :: "(string option \<times> jsval option) list"

subsection \<open>The event emitter of a storage\<close>

text \<open>\<^verbatim>\<open>on\<close> and \<^verbatim>\<open>once\<close>: the listener is added at the end.\<close>

definition addListener :: "event \<Rightarrow> bool \<Rightarrow> listener \<Rightarrow> storage \<Rightarrow> storage" where
  "addListener e onceOnly f st =
     st\<lparr>listeners := listeners st @ [\<lparr>regEvent = e, regOnce = onceOnly, regListener = f\<rparr>]\<rparr>"

text \<open>\<^verbatim>\<open>removeListener\<close> removes the most recently added registration of the listener.\<close>

fun removeFirst :: "('a \<Rightarrow> bool) \<Rightarrow> 'a list \<Rightarrow> 'a list" where
  "removeFirst P [] = []"
| "removeFirst P (x # xs) = (if P x then xs else x # removeFirst P xs)"

definition removeListener :: "event \<Rightarrow> listener \<Rightarrow> storage \<Rightarrow> storage" where
  "removeListener e f st =
     st\<lparr>listeners :=
          rev (removeFirst (\<lambda>r. regEvent r = e \<and> regListener r = f) (rev (listeners st)))\<rparr>"

text \<open>Settling a promise of \<^verbatim>\<open>ready\<close>: only a pending promise changes.\<close>

definition settlePromise :: "nat \<Rightarrow> connection promise \<Rightarrow> storage \<Rightarrow> storage" where
  "settlePromise pid settled st =
     (if pid < length (readyPromises st) \<and> readyPromises st ! pid = Pending
      then st\<lparr>readyPromises := (readyPromises st)[pid := settled]\<rparr>
      else st)"

text \<open>
  The call of a listener with a signal. \<^verbatim>\<open>done\<close> detaches \<^verbatim>\<open>fail\<close> and resolves with
  the result, \<^verbatim>\<open>fail\<close> detaches \<^verbatim>\<open>done\<close> and rejects with the error; they are only ever
  attached to the events connection and connectionFailed.
\<close>

fun invoke :: "listener \<Rightarrow> signal \<Rightarrow> storage \<Rightarrow> storage" where
  "invoke (ReadyDone pid) (Connection d cl) st =
     settlePromise pid (Resolved (d, cl)) (removeListener EvConnectionFailed (ReadyFail pid) st)"
| "invoke (ReadyFail pid) (ConnectionFailed err) st =
     settlePromise pid (Rejected err) (removeListener EvConnection (ReadyDone pid) st)"
| "invoke (Observer n) s st = st\<lparr>observed := observed st @ [(n, s)]\<rparr>"
| "invoke f s st = st"

text \<open>
  \<^verbatim>\<open>emit\<close>: the listeners of the event at the time of the call are called in the order
  they were added; a listener added with \<^verbatim>\<open>once\<close> is removed before its call.
\<close>

definition callListener :: "signal \<Rightarrow> storage \<Rightarrow> registration \<Rightarrow> storage" where
  "callListener s st r =
     invoke (regListener r) s
       (if regOnce r then removeListener (regEvent r) (regListener r) st else st)"

definition emit :: "signal \<Rightarrow> storage \<Rightarrow> storage" where
  "emit s st =
     foldl (callListener s) (st\<lparr>emitted := emitted st @ [s]\<rparr>)
       (filter (\<lambda>r. regEvent r = eventOf s) (listeners st))"

subsection \<open>The connection of a storage\<close>

text \<open>\<^verbatim>\<open>_updateConnectionStatus\<close>.\<close>

definition updateConnectionStatus :: "storage \<Rightarrow> storage" where
  "updateConnectionStatus st =
     (case db st of
        None \<Rightarrow> st\<lparr>connected := False, connecting := False\<rparr>
      | Some d \<Rightarrow>
          (case client st of
             Some cl \<Rightarrow>
               st\<lparr>connected := (case isConnected cl of Some up \<Rightarrow> up | None \<Rightarrow> True)\<rparr>
           | None \<Rightarrow> st\<lparr>connected := topologyConnected d\<rparr>))"

text \<open>
  \<^verbatim>\<open>errEvent\<close>, the listener that \<^verbatim>\<open>_setDb\<close> attaches to the client; the event may come
  without an error.
\<close>

definition errEvent :: "js_error option \<Rightarrow> storage \<Rightarrow> storage" where
  "errEvent err st =
     (let st' = updateConnectionStatus st;
          error' = (case err of Some e \<Rightarrow> e | None \<Rightarrow> Error [])
      in emit (DbError error') st')"

text \<open>
  \<^verbatim>\<open>_setDb(db, client)\<close>. The listeners are attached to \<^verbatim>\<open>this.client\<close>: when the storage
  has no client the call throws, after the assignments before it. Otherwise the signal
  connection is queued for the next tick.
\<close>

definition setDb :: "db_handle \<Rightarrow> client_handle option \<Rightarrow> storage \<Rightarrow> js_error option \<times> storage" where
  "setDb d cl st =
     (let st1 = st\<lparr>connecting := False, db := Some (getDatabase d)\<rparr>;
          st2 = (case cl of Some c \<Rightarrow> st1\<lparr>client := Some c\<rparr> | None \<Rightarrow> st1)
      in case client st2 of
           None \<Rightarrow> (Some (TypeError ''Cannot read property on of null''), st2)
         | Some c \<Rightarrow>
             (let st3 = st2\<lparr>clientListeners :=
                              clientListeners st2 @ [BackendErrorEvent, ParseError, Timeout, Close]\<rparr>;
                  st4 = updateConnectionStatus st3
              in (None, st4\<lparr>ticks := ticks st4 @ [EmitConnection]\<rparr>)))"

text \<open>\<^verbatim>\<open>_fail(err)\<close>.\<close>

definition fail :: "js_error \<Rightarrow> storage \<Rightarrow> storage" where
  "fail err st =
     emit (ConnectionFailed err)
       (updateConnectionStatus (st\<lparr>connecting := False, db := None, client := None, error := Some err\<rparr>))"

text \<open>One callback of the next tick queue.\<close>

definition runTick :: "storage \<Rightarrow> storage" where
  "runTick st =
     (case ticks st of
        [] \<Rightarrow> st
      | EmitConnection # rest \<Rightarrow> emit (Connection (db st) (client st)) (st\<lparr>ticks := rest\<rparr>))"

text \<open>An event of the client: the listeners that \<^verbatim>\<open>_setDb\<close> attached to it are called.\<close>

definition clientEvent :: "backend_event \<Rightarrow> js_error option \<Rightarrow> storage \<Rightarrow> storage" where
  "clientEvent ev err st =
     foldl (\<lambda>s l. errEvent err s) st (filter (\<lambda>l. l = ev) (clientListeners st))"

text \<open>The backend link of the handles of a storage goes up or down.\<close>

definition linkStatus :: "bool \<Rightarrow> storage \<Rightarrow> storage" where
  "linkStatus up st =
     st\<lparr>db := map_option (\<lambda>d. d\<lparr>topologyConnected := up\<rparr>) (db st),
        client := map_option (\<lambda>c. c\<lparr>isConnected := map_option (\<lambda>b. up) (isConnected c)\<rparr>) (client st)\<rparr>"

text \<open>
  \<^verbatim>\<open>ready()\<close>. The promise it returns is the last of \<open>readyPromises\<close>; the result is its
  number.
\<close>

definition ready :: "storage \<Rightarrow> nat \<times> storage" where
  "ready st =
     (let pid = length (readyPromises st) in
      case error st of
        Some err \<Rightarrow> (pid, st\<lparr>readyPromises := readyPromises st @ [Rejected err]\<rparr>)
      | None \<Rightarrow>
          if connected st
          then (pid, st\<lparr>readyPromises := readyPromises st @ [Resolved (db st, client st)]\<rparr>)
          else (pid,
                addListener EvConnectionFailed True (ReadyFail pid)
                  (addListener EvConnection True (ReadyDone pid)
                     (st\<lparr>readyPromises := readyPromises st @ [Pending]\<rparr>))))"

text \<open>
  \<^verbatim>\<open>_handleFile\<close>: the upload waits for \<^verbatim>\<open>ready\<close>, or \<^verbatim>\<open>fromFile\<close> is called, or the
  callback is called with an error.
\<close>

datatype handled = AfterReady nat | FromFile | Callback js_error

definition handleFile :: "storage \<Rightarrow> handled \<times> storage" where
  "handleFile st =
     (if connecting st then (case ready st of (pid, st') \<Rightarrow> (AfterReady pid, st'))
      else
        (let st' = updateConnectionStatus st in
         if connected st' then (FromFile, st')
         else (Callback (Error ''The database connection must be open to store files''), st')))"

subsection \<open>Construction and the connection attempt\<close>

text \<open>
  The synchronous part of \<^verbatim>\<open>_createConnection\<close>: the call of \<^verbatim>\<open>MongoClient.connect\<close> with
  the url and the options. \<open>connects\<close> lists the connect operations that the storage began.
\<close>

definition createConnection :: "storage \<Rightarrow> storage" where
  "createConnection st =
     st\<lparr>connects := connects st @ [(url (configuration st), storageOptions st)],
        awaiting := AwaitConnect\<rparr>"

text \<open>
  The synchronous part of \<^verbatim>\<open>_resolveConnection\<close>, up to the promise it hangs on. A storage
  that caches always has a cache index: the constructor sets both.
\<close>

definition resolveConnection :: "cache \<Rightarrow> storage \<Rightarrow> cache \<times> storage" where
  "resolveConnection c st =
     (let st1 = st\<lparr>connecting := True\<rparr> in
      if dbOpt (configuration st1) \<noteq> Missing then (c, st1\<lparr>awaiting := AwaitGiven\<rparr>)
      else if \<not> caching st1 then (c, createConnection st1)
      else
        (case cacheIndex st1 of
           Some idx \<Rightarrow>
             if \<not> isOpening c idx \<and> isPending c idx
             then (setStatus c idx EOpening, createConnection st1)
             else (c, st1\<lparr>awaiting := AwaitCache idx\<rparr>)
         | None \<Rightarrow> (c, st1)))"

text \<open>
  What \<^verbatim>\<open>MongoClient.connect\<close> settles with: a MongoClient, with the Db object that
  \<^verbatim>\<open>client.db(parsedUri.database)\<close> returns, a Db object, or an error.
\<close>

datatype connect_result =
    ConnectedClient client_handle db_handle
  | ConnectedDb db_handle
  | ConnectFailed js_error

type_synonym resolution = "js_error + db_handle \<times> client_handle option"

text \<open>
  The rest of \<^verbatim>\<open>_createConnection\<close>, once the connect operation has settled: the cache
  slot is resolved when the storage caches, and rejected when it has a cache index.
\<close>

definition createConnectionDone :: "cache \<Rightarrow> storage \<Rightarrow> connect_result \<Rightarrow> cache \<times> resolution" where
  "createConnectionDone c st res =
     (let resolved = (\<lambda>d cl.
            ((if caching st
              then (case cacheIndex st of Some idx \<Rightarrow> resolveEntry c idx d cl | None \<Rightarrow> c)
              else c),
             Inr (d, cl)))
      in case res of
           ConnectedClient cl d \<Rightarrow> resolved d (Some cl)
         | ConnectedDb d \<Rightarrow> resolved d None
         | ConnectFailed err \<Rightarrow>
             ((case cacheIndex st of Some idx \<Rightarrow> rejectEntry c idx err | None \<Rightarrow> c), Inl err))"

text \<open>
  The handlers of \<^verbatim>\<open>_connect\<close> on the promise of \<^verbatim>\<open>_resolveConnection\<close>: \<^verbatim>\<open>_setDb\<close> on
  success, and \<^verbatim>\<open>_fail\<close> on a rejection or when \<^verbatim>\<open>_setDb\<close> throws.
\<close>

definition settle :: "resolution \<Rightarrow> storage \<Rightarrow> storage" where
  "settle res st =
     (let st1 = st\<lparr>awaiting := NoWait, outcome := Some res\<rparr> in
      case res of
        Inr (d, cl) \<Rightarrow>
          (case setDb d cl st1 of
             (None, st2) \<Rightarrow> st2
           | (Some err, st2) \<Rightarrow> fail err st2)
      | Inl err \<Rightarrow> fail err st1)"

text \<open>
  \<^verbatim>\<open>_connect\<close>: with a db that is given and no promise among db and client, \<^verbatim>\<open>_setDb\<close>
  runs at once, and what it throws leaves the constructor.
\<close>

definition connect :: "cache \<Rightarrow> storage \<Rightarrow> cache \<times> (js_error + storage)" where
  "connect c st =
     (case (dbOpt (configuration st), clientOpt (configuration st)) of
        (Given d, Missing) \<Rightarrow>
          (case setDb d None st of (None, st') \<Rightarrow> (c, Inr st') | (Some err, st') \<Rightarrow> (c, Inl err))
      | (Given d, Given cl) \<Rightarrow>
          (case setDb d (Some cl) st of (None, st') \<Rightarrow> (c, Inr st') | (Some err, st') \<Rightarrow> (c, Inl err))
      | _ \<Rightarrow> (case resolveConnection c st of (c', st') \<Rightarrow> (c', Inr st')))"

text \<open>
  The constructor, with the module constant \<^verbatim>\<open>legacy\<close> and the cache of the module. It
  throws without a configuration, and when neither url nor db is given.
\<close>

definition newStorage :: "bool \<Rightarrow> configuration \<Rightarrow> storage" where
  "newStorage leg cfg =
     \<lparr>db = None, client = None, connected = False, connecting = False,
      configuration = cfg, caching = False, cacheName = None, cacheIndex = None,
      error = None, legacy = leg, storageOptions = None,
      listeners = [], clientListeners = [], emitted = [], observed = [], ticks = [],
      readyPromises = [], awaiting = NoWait, outcome = None, connects = []\<rparr>"

definition construct :: "bool \<Rightarrow> cache \<Rightarrow> configuration option \<Rightarrow> cache \<times> (js_error + storage)" where
  "construct leg c conf =
     (case conf of
        None \<Rightarrow>
          (c, Inl (Error ''Error creating storage engine. At least one of url or db option must be provided.''))
      | Some cfg \<Rightarrow>
          if \<not> hasUrl cfg \<and> dbOpt cfg = Missing
          then (c, Inl (Error ''Error creating storage engine. At least one of url or db option must be provided.''))
          else
            (let st0 = newStorage leg cfg;
                 st1 = (if hasUrl cfg
                        then st0\<lparr>caching := cacheEnabled (cacheOpt cfg),
                                 storageOptions := Some (options cfg)\<rparr>
                        else st0)
             in if caching st1
                then (case initialize c \<lparr>sigUrl = url cfg, sigName = cacheNameOf (cacheOpt cfg),
                                          sigInit = options cfg\<rparr> of
                        (idx, c') \<Rightarrow>
                          connect c' (st1\<lparr>cacheName := Some (cacheNameOf (cacheOpt cfg)),
                                           cacheIndex := Some idx\<rparr>))
                else connect c st1))"

subsection \<open>The storages of a process and their cache\<close>

record world =
  cache :: cache
  storages :: "storage list"

text \<open>A storage is constructed; one whose constructor throws does not exist.\<close>

definition create :: "bool \<Rightarrow> configuration \<Rightarrow> world \<Rightarrow> world" where
  "create leg cfg w =
     (case construct leg (cache w) (Some cfg) of
        (c', Inl err) \<Rightarrow> w\<lparr>cache := c'\<rparr>
      | (c', Inr st) \<Rightarrow> w\<lparr>cache := c', storages := storages w @ [st]\<rparr>)"

text \<open>The connect operation of storage \<open>i\<close> settles.\<close>

definition connectDone :: "nat \<Rightarrow> connect_result \<Rightarrow> world \<Rightarrow> world" where
  "connectDone i res w =
     (if i < length (storages w) \<and> awaiting (storages w ! i) = AwaitConnect
      then (case createConnectionDone (cache w) (storages w ! i) res of
              (c', r) \<Rightarrow> w\<lparr>cache := c', storages := (storages w)[i := settle r (storages w ! i)]\<rparr>)
      else w)"

text \<open>The wait of storage \<open>i\<close> on its cache slot ends, when the slot has an outcome.\<close>

definition waitDone :: "nat \<Rightarrow> world \<Rightarrow> world" where
  "waitDone i w =
     (if i < length (storages w)
      then (case awaiting (storages w ! i) of
              AwaitCache idx \<Rightarrow>
                (case waitFor (cache w) idx of
                   Some r \<Rightarrow> w\<lparr>storages := (storages w)[i := settle r (storages w ! i)]\<rparr>
                 | None \<Rightarrow> w)
            | _ \<Rightarrow> w)
      else w)"

text \<open>
  \<^verbatim>\<open>Promise.all([db, client])\<close> on the db and client of the configuration, with what the
  promises among them settle with. When both reject, the model takes the rejection of db.
\<close>

definition allGiven ::
  "configuration \<Rightarrow> js_error + db_handle \<Rightarrow> js_error + client_handle option \<Rightarrow>
   js_error + db_handle \<times> client_handle option" where
  "allGiven cfg dbResult clientResult =
     (case (case dbOpt cfg of Given d \<Rightarrow> Inr d | _ \<Rightarrow> dbResult) of
        Inl err \<Rightarrow> Inl err
      | Inr d \<Rightarrow>
          (case (case clientOpt cfg of
                   Given cl \<Rightarrow> Inr (Some cl)
                 | Missing \<Rightarrow> Inr None
                 | Promised \<Rightarrow> clientResult) of
             Inl err \<Rightarrow> Inl err
           | Inr cl \<Rightarrow> Inr (d, cl)))"

text \<open>The promises given as db and client of storage \<open>i\<close> settle.\<close>

definition givenDone ::
  "nat \<Rightarrow> js_error + db_handle \<Rightarrow> js_error + client_handle option \<Rightarrow> world \<Rightarrow> world" where
  "givenDone i dbResult clientResult w =
     (if i < length (storages w) \<and> awaiting (storages w ! i) = AwaitGiven
      then w\<lparr>storages :=
              (storages w)[i := settle (allGiven (configuration (storages w ! i)) dbResult clientResult)
                                  (storages w ! i)]\<rparr>
      else w)"

section \<open>The merge order, as the specification words it\<close>

text \<open>
  Layers of properties, lowest precedence first: a key has the value of the last layer
  that defines it.
\<close>

fun layered :: "(string, jsval) fmap list \<Rightarrow> string \<Rightarrow> jsval option" where
  "layered [] k = None"
| "layered (m # ms) k = (case layered ms k of Some v \<Rightarrow> Some v | None \<Rightarrow> fmlookup m k)"





section \<open>Sample inputs\<close>




section \<open>Predicates on the state of a storage\<close>

text \<open>The registrations of a listener, on any event.\<close>

definition registrationsOf :: "listener \<Rightarrow> storage \<Rightarrow> registration list" where
  "registrationsOf f st = filter (\<lambda>r. regListener r = f) (listeners st)"

text \<open>
  A call of \<^verbatim>\<open>ready\<close> is suspended: its promise is pending, and \<^verbatim>\<open>done\<close> and \<^verbatim>\<open>fail\<close>
  are each attached once, with \<^verbatim>\<open>once\<close>, to connection and to connectionFailed.
\<close>

definition waitingFor :: "nat \<Rightarrow> storage \<Rightarrow> bool" where
  "waitingFor pid st =
     (pid < length (readyPromises st) \<and> readyPromises st ! pid = Pending \<and>
      registrationsOf (ReadyDone pid) st =
        [\<lparr>regEvent = EvConnection, regOnce = True, regListener = ReadyDone pid\<rparr>] \<and>
      registrationsOf (ReadyFail pid) st =
        [\<lparr>regEvent = EvConnectionFailed, regOnce = True, regListener = ReadyFail pid\<rparr>])"

text \<open>Neither listener of a call of \<^verbatim>\<open>ready\<close> is attached.\<close>

definition detached :: "nat \<Rightarrow> storage \<Rightarrow> bool" where
  "detached pid st =
     (registrationsOf (ReadyDone pid) st = [] \<and> registrationsOf (ReadyFail pid) st = [])"

text \<open>The promise that a listener settles.\<close>

fun listenerPromise :: "listener \<Rightarrow> nat option" where
  "listenerPromise (ReadyDone pid) = Some pid"
| "listenerPromise (ReadyFail pid) = Some pid"
| "listenerPromise (Observer n) = None"

text \<open>Every listener of \<^verbatim>\<open>ready\<close> that is attached belongs to a promise that exists.\<close>

definition wellFormed :: "storage \<Rightarrow> bool" where
  "wellFormed st =
     list_all (\<lambda>r. case listenerPromise (regListener r) of
                      Some pid \<Rightarrow> pid < length (readyPromises st)
                    | None \<Rightarrow> True)
       (listeners st)"

text \<open>The promise of a call of \<^verbatim>\<open>ready\<close> has settled, and its listeners are detached.\<close>

definition settledAs :: "nat \<Rightarrow> connection promise \<Rightarrow> storage \<Rightarrow> bool" where
  "settledAs pid p st =
     (pid < length (readyPromises st) \<and> readyPromises st ! pid = p \<and> detached pid st)"


text \<open>A storage that connects to a url, a Db object and a client.\<close>

definition config0 :: configuration where
  "config0 = \<lparr>url = Some ''mongodb://localhost/test'', options = object [],
              cacheOpt = NoCache, dbOpt = Missing, clientOpt = Missing\<rparr>"

definition db0 :: db_handle where
  "db0 = \<lparr>dbName = ''test'', topologyConnected = True\<rparr>"

definition client0 :: client_handle where
  "client0 = \<lparr>clientName = ''client'', isConnected = Some True\<rparr>"

definition connecting0 :: storage where
  "connecting0 =
     (newStorage False config0)
       \<lparr>connecting := True, storageOptions := Some (object []),
        awaiting := AwaitConnect,
        connects := [(Some ''mongodb://localhost/test'', Some (object []))]\<rparr>"

text \<open>The listeners of the user on an event, in the order they were added.\<close>

definition observersOf :: "event \<Rightarrow> registration list \<Rightarrow> nat list" where
  "observersOf e rs =
     concat (map (\<lambda>r. case regListener r of Observer n \<Rightarrow> [n] | _ \<Rightarrow> [])
               (filter (\<lambda>r. regEvent r = e) rs))"

text \<open>Two states that differ at most in listeners, promises and recorded calls.\<close>

definition sameConnection :: "storage \<Rightarrow> storage \<Rightarrow> bool" where
  "sameConnection st st' =
     (db st' = db st \<and> client st' = client st \<and> connected st' = connected st \<and>
      connecting st' = connecting st \<and> error st' = error st \<and> emitted st' = emitted st \<and>
      ticks st' = ticks st \<and> clientListeners st' = clientListeners st \<and>
      awaiting st' = awaiting st \<and> outcome st' = outcome st \<and> connects st' = connects st \<and>
      configuration st' = configuration st \<and> caching st' = caching st \<and>
      cacheIndex st' = cacheIndex st \<and> cacheName st' = cacheName st \<and> legacy st' = legacy st)"

text \<open>The connected flag as \<^verbatim>\<open>_updateConnectionStatus\<close> derives it from the handles.\<close>

definition linkUp :: "storage \<Rightarrow> bool" where
  "linkUp st =
     (case db st of
        None \<Rightarrow> False
      | Some d \<Rightarrow>
          (case client st of
             Some cl \<Rightarrow> (case isConnected cl of Some up \<Rightarrow> up | None \<Rightarrow> True)
           | None \<Rightarrow> topologyConnected d))"

text \<open>A storage whose \<^verbatim>\<open>_setDb\<close> succeeded, with a user listener for dbError.\<close>

definition connected0 :: storage where
  "connected0 =
     addListener EvDbError False (Observer 1)
       (runTick (snd (setDb db0 (Some client0) connecting0)))"

text \<open>
  A storage whose link dropped, with the close event of the client, and came back: the
  flags still say neither connecting nor connected.
\<close>

definition reconnected0 :: storage where
  "reconnected0 = linkStatus True (clientEvent Close None (linkStatus False connected0))"

text \<open>The user attaches listener \<open>n\<close> to connection and to connectionFailed.\<close>

definition watch :: "nat \<Rightarrow> storage \<Rightarrow> storage" where
  "watch n st =
     addListener EvConnectionFailed False (Observer n)
       (addListener EvConnection False (Observer n) st)"

text \<open>A storage as the constructor has it when it calls \<^verbatim>\<open>_connect\<close>.\<close>

definition blank :: "storage \<Rightarrow> bool" where
  "blank st =
     (emitted st = [] \<and> observed st = [] \<and> listeners st = [] \<and> readyPromises st = [] \<and>
      error st = None \<and> ticks st = [] \<and> client st = None \<and> db st = None \<and>
      awaiting st = NoWait \<and> clientListeners st = [] \<and> \<not> connected st \<and>
      (caching st \<longleftrightarrow> cacheIndex st \<noteq> None))"

text \<open>What the constructor leaves: nothing emitted, and the signal queued or awaited.\<close>

definition constructed :: "storage \<Rightarrow> bool" where
  "constructed st =
     (emitted st = [] \<and> observed st = [] \<and> listeners st = [] \<and> readyPromises st = [] \<and>
      error st = None \<and>
      (if awaiting st = NoWait
       then ticks st = [EmitConnection] \<and> \<not> connecting st \<and> db st \<noteq> None \<and> client st \<noteq> None
       else ticks st = [] \<and> connecting st \<and> db st = None \<and> client st = None \<and> \<not> connected st))"

text \<open>A configuration that gives a Db object and a client.\<close>

definition configGiven0 :: configuration where
  "configGiven0 = \<lparr>url = None, options = JUndefined, cacheOpt = NoCache,
                    dbOpt = Given db0, clientOpt = Given client0\<rparr>"

section \<open>The upload pipeline\<close>

text \<open>
  What a call of the file function gives \<^verbatim>\<open>_generate\<close>: the value a plain function returns
  (or its promise resolves with), an error it throws (or rejects with), or the result
  \<open>{done, value}\<close> of \<^verbatim>\<open>next\<close> on the generator. The model leaves out that the generator
  replaces the generator function in \<^verbatim>\<open>this._file\<close> after the first upload.
\<close>

datatype call_outcome = Returned jsval | Threw js_error | Yielded bool jsval

text \<open>\<^verbatim>\<open>_handleResult\<close>, awaited.\<close>

fun handleResult :: "call_outcome \<Rightarrow> js_error + jsval" where
  "handleResult (Returned v) = Inr v"
| "handleResult (Threw err) = Inl err"
| "handleResult (Yielded finished v) =
     (if finished then Inl (Error ''Generator ended unexpectedly'') else Inr v)"

text \<open>\<^verbatim>\<open>_generate\<close>: without a file function the result is the empty object.\<close>

definition generate :: "call_outcome option \<Rightarrow> js_error + jsval" where
  "generate call = (case call of None \<Rightarrow> Inr (object []) | Some r \<Rightarrow> handleResult r)"

text \<open>The writable stream that \<^verbatim>\<open>createStream\<close> makes, with the arguments it passes.\<close>

datatype writer =
    GridStoreStream "db_handle option" jsval jsval jsval
  | GridFSBucketWriteStream "db_handle option" jsval jsval jsval

definition createStream :: "storage \<Rightarrow> jsval \<Rightarrow> writer" where
  "createStream st opts =
     (if legacy st
      then GridStoreStream (db st) (getProp opts ''id'') (getProp opts ''filename'')
             (object [(''chunk_size'', getProp opts ''chunkSize''),
                      (''metadata'', getProp opts ''metadata''),
                      (''content_type'', getProp opts ''contentType''),
                      (''root'', getProp opts ''bucketName''),
                      (''aliases'', getProp opts ''aliases'')])
      else GridFSBucketWriteStream (db st) (object [(''bucketName'', getProp opts ''bucketName'')])
             (getProp opts ''filename'')
             (object [(''id'', getProp opts ''id''),
                      (''chunkSizeBytes'', getProp opts ''chunkSize''),
                      (''contentType'', getProp opts ''contentType''),
                      (''metadata'', getProp opts ''metadata''),
                      (''aliases'', getProp opts ''aliases''),
                      (''disableMD5'', getProp opts ''disableMD5'')]))"

text \<open>
  An upload in progress: the stream options, the writer, the promise that \<^verbatim>\<open>fromStream\<close>
  returned, the listeners attached to the writer, whether the callback of \<^verbatim>\<open>store.open\<close>
  is outstanding, how many callbacks of \<^verbatim>\<open>store.close\<close> are, and whether \<^verbatim>\<open>pump\<close> has been
  called.
\<close>

record upload =
  upOptions :: jsval
  upWriter :: writer
  upResult :: "jsval promise"
  errorListeners :: nat
  endListeners :: nat
  finishListeners :: nat
  openPending :: bool
  closePending :: nat
  piping :: bool

text \<open>The stored file that \<^verbatim>\<open>emitFile\<close> builds from the file information of the backend.\<close>

definition storedFile :: "jsval \<Rightarrow> jsval \<Rightarrow> jsval" where
  "storedFile opts f =
     object [(''id'', getProp f ''_id''),
             (''filename'', getProp f ''filename''),
             (''metadata'', if truthy (getProp f ''metadata'') then getProp f ''metadata'' else JNull),
             (''bucketName'', getProp opts ''bucketName''),
             (''chunkSize'', getProp f ''chunkSize''),
             (''size'', getProp f ''length''),
             (''md5'', getProp f ''md5''),
             (''uploadDate'', getProp f ''uploadDate''),
             (''contentType'', getProp f ''contentType'')]"

text \<open>\<^verbatim>\<open>resolve\<close> and \<^verbatim>\<open>reject\<close> of the promise: only a pending promise changes.\<close>

definition settleUpload :: "jsval promise \<Rightarrow> upload \<Rightarrow> upload" where
  "settleUpload p u = (if upResult u = Pending then u\<lparr>upResult := p\<rparr> else u)"

text \<open>\<^verbatim>\<open>emitError\<close> and \<^verbatim>\<open>emitFile\<close>.\<close>

definition emitError :: "js_error \<Rightarrow> storage \<times> upload \<Rightarrow> storage \<times> upload" where
  "emitError streamError su =
     (case su of (st, u) \<Rightarrow>
        (emit (StreamError streamError (upOptions u)) st, settleUpload (Rejected streamError) u))"

definition emitFile :: "jsval \<Rightarrow> storage \<times> upload \<Rightarrow> storage \<times> upload" where
  "emitFile f su =
     (case su of (st, u) \<Rightarrow>
        (emit (File (storedFile (upOptions u) f)) st,
         settleUpload (Resolved (storedFile (upOptions u) f)) u))"

text \<open>
  The executor of the promise in \<^verbatim>\<open>fromStream\<close>: the writer is created and \<^verbatim>\<open>emitError\<close>
  attached to its error event; on the legacy path \<^verbatim>\<open>store.open\<close> is called, otherwise
  \<^verbatim>\<open>emitFile\<close> is attached to finish and \<^verbatim>\<open>pump\<close> starts.
\<close>

definition startUpload :: "storage \<Rightarrow> jsval \<Rightarrow> upload" where
  "startUpload st opts =
     (let u = \<lparr>upOptions = opts, upWriter = createStream st opts, upResult = Pending,
               errorListeners = 1, endListeners = 0, finishListeners = 0,
               openPending = False, closePending = 0, piping = False\<rparr>
      in if legacy st then u\<lparr>openPending := True\<rparr>
         else u\<lparr>finishListeners := 1, piping := True\<rparr>)"

text \<open>
  What happens to the writer and its store during an upload: the events error, end and
  finish of the writer, and the callbacks of \<^verbatim>\<open>store.open\<close> and \<^verbatim>\<open>store.close\<close>.
\<close>

datatype writer_event =
    WriterError js_error
  | WriterEnd
  | WriterFinish jsval
  | OpenDone "js_error option"
  | CloseDone "js_error option" jsval

text \<open>The listeners and callbacks of \<^verbatim>\<open>fromStream\<close>, called by an event.\<close>

fun uploadStep :: "storage \<times> upload \<Rightarrow> writer_event \<Rightarrow> storage \<times> upload" where
  "uploadStep (st, u) (WriterError err) = ((emitError err ^^ errorListeners u) (st, u))"
| "uploadStep (st, u) WriterEnd = (st, u\<lparr>closePending := closePending u + endListeners u\<rparr>)"
| "uploadStep (st, u) (WriterFinish f) = ((emitFile f ^^ finishListeners u) (st, u))"
| "uploadStep (st, u) (OpenDone r) =
     (if openPending u
      then (case r of
              Some err \<Rightarrow> emitError err (st, u\<lparr>openPending := False\<rparr>)
            | None \<Rightarrow> (st, u\<lparr>openPending := False, endListeners := endListeners u + 1, piping := True\<rparr>))
      else (st, u))"
| "uploadStep (st, u) (CloseDone r f) =
     (if 0 < closePending u
      then (case r of
              Some err \<Rightarrow> emitError err (st, u\<lparr>closePending := closePending u - 1\<rparr>)
            | None \<Rightarrow> emitFile f (st, u\<lparr>closePending := closePending u - 1\<rparr>))
      else (st, u))"

definition uploadRun :: "storage \<times> upload \<Rightarrow> writer_event list \<Rightarrow> storage \<times> upload" where
  "uploadRun su evs = foldl uploadStep su evs"

text \<open>
  \<^verbatim>\<open>fromStream\<close>: a storage that is connecting waits for \<^verbatim>\<open>ready\<close> first; the promise
  rejects when the file function fails, its result has a type that is not accepted or
  no name can be generated; otherwise the upload starts.
\<close>

datatype upload_start = AwaitsReady nat | Rejects js_error | Writing upload

definition afterReady ::
  "platform \<Rightarrow> file_info option \<Rightarrow> call_outcome option \<Rightarrow> storage \<Rightarrow> upload_start" where
  "afterReady p file call st =
     (case generate call of
        Inl err \<Rightarrow> Rejects err
      | Inr fileSettings \<Rightarrow>
          (case streamOptions p file fileSettings of
             Inl err \<Rightarrow> Rejects err
           | Inr opts \<Rightarrow> Writing (startUpload st opts)))"

definition fromStream ::
  "platform \<Rightarrow> file_info option \<Rightarrow> call_outcome option \<Rightarrow> storage \<Rightarrow> upload_start \<times> storage" where
  "fromStream p file call st =
     (if connecting st then (case ready st of (pid, st') \<Rightarrow> (AwaitsReady pid, st'))
      else (afterReady p file call st, st))"


text \<open>
  What holds of an upload from its start on: the stream options stay, \<^verbatim>\<open>emitError\<close> is
  attached once and \<^verbatim>\<open>emitFile\<close> at most once, and nothing has been emitted while the
  promise is pending.
\<close>

definition inProgress :: "jsval \<Rightarrow> signal list \<Rightarrow> storage \<times> upload \<Rightarrow> bool" where
  "inProgress opts before su =
     (upOptions (snd su) = opts \<and> errorListeners (snd su) = 1 \<and> finishListeners (snd su) \<le> 1 \<and>
      (upResult (snd su) = Pending \<longrightarrow> emitted (fst su) = before))"

text \<open>Stream options and a storage on the legacy path, for the examples.\<close>

definition options0 :: jsval where
  "options0 = object [(''filename'', JStr ''abc''), (''bucketName'', JStr ''fs'')]"

definition legacy0 :: storage where
  "legacy0 = connected0\<lparr>legacy := True\<rparr>"

text \<open>Two uploads that differ at most in their promise.\<close>

definition sameWiring :: "upload \<Rightarrow> upload \<Rightarrow> bool" where
  "sameWiring u u' =
     (upOptions u' = upOptions u \<and> upWriter u' = upWriter u \<and>
      errorListeners u' = errorListeners u \<and> endListeners u' = endListeners u \<and>
      finishListeners u' = finishListeners u \<and> openPending u' = openPending u \<and>
      closePending u' = closePending u \<and> piping u' = piping u)"

text \<open>
  An upload on the legacy path: no listener for finish, a listener for end exactly when
  \<^verbatim>\<open>pump\<close> has been called, and \<^verbatim>\<open>pump\<close> called only after \<^verbatim>\<open>store.open\<close> succeeded.
\<close>

definition legacyUpload :: "writer_event list \<Rightarrow> upload \<Rightarrow> bool" where
  "legacyUpload evs u =
     (finishListeners u = 0 \<and> endListeners u = (if piping u then 1 else 0) \<and>
      (if piping u then OpenDone None \<in> set evs \<and> \<not> openPending u else True))"

text \<open>An upload on the modern path: piping, a listener for finish, no open and no close.\<close>

definition modernUpload :: "upload \<Rightarrow> bool" where
  "modernUpload u =
     (piping u \<and> \<not> openPending u \<and> endListeners u = 0 \<and> closePending u = 0 \<and>
      finishListeners u = 1)"

text \<open>File information as the backend reports it, for the examples.\<close>

definition fileInfo0 :: jsval where
  "fileInfo0 = object [(''_id'', JNum 7), (''filename'', JStr ''abc''), (''length'', JNum 3)]"

section \<open>Properties of the file settings\<close>






lemma fmadd_lookup:
  "fmlookup (m ++\<^sub>f n) k = (case fmlookup n k of Some v \<Rightarrow> Some v | None \<Rightarrow> fmlookup m k)"
  by (cases "fmlookup n k") (auto simp: fmlookup_dom_iff)

lemma layered4: "layered [a, b, c, d] k = fmlookup (a ++\<^sub>f b ++\<^sub>f c ++\<^sub>f d) k"
  by (simp del: fmlookup_add add: fmadd_lookup split: option.splits)




























lemma filter_removeFirst_other:
  "(\<And>x. P x \<Longrightarrow> \<not> Q x) \<Longrightarrow> filter Q (removeFirst P xs) = filter Q xs"
  by (induction xs) auto

lemma filter_removeFirst_single:
  "filter Q xs = [y] \<Longrightarrow> P y \<Longrightarrow> (\<And>x. P x \<Longrightarrow> Q x) \<Longrightarrow> filter Q (removeFirst P xs) = []"
proof (induction xs)
  case Nil
  then show ?case by simp
next
  case (Cons x xs)
  show ?case
  proof (cases "P x")
    case True
    then have "Q x" by (rule Cons.prems(3))
    then show ?thesis using Cons.prems(1) True by simp
  next
    case False
    show ?thesis
    proof (cases "Q x")
      case True
      then have "x = y" using Cons.prems(1) by simp
      then show ?thesis using False Cons.prems(2) by simp
    next
      case q: False
      then show ?thesis using False Cons by simp
    qed
  qed
qed

lemma filter_removeFirst_empty:
  "filter Q xs = [] \<Longrightarrow> filter Q (removeFirst P xs) = []"
  by (induction xs) (auto split: if_splits)

lemma registrationsOf_removeListener_other:
  "f \<noteq> g \<Longrightarrow> registrationsOf g (removeListener e f st) = registrationsOf g st"
proof -
  assume ne: "f \<noteq> g"
  have "filter (\<lambda>r. regListener r = g)
          (removeFirst (\<lambda>r. regEvent r = e \<and> regListener r = f) (rev (listeners st)))
        = filter (\<lambda>r. regListener r = g) (rev (listeners st))"
    by (rule filter_removeFirst_other) (use ne in auto)
  then show ?thesis
    by (simp add: registrationsOf_def removeListener_def rev_filter [symmetric])
qed

lemma registrationsOf_removeListener_single:
  assumes "registrationsOf f st = [\<lparr>regEvent = e, regOnce = b, regListener = f\<rparr>]"
  shows "registrationsOf f (removeListener e f st) = []"
proof -
  let ?y = "\<lparr>regEvent = e, regOnce = b, regListener = f\<rparr>"
  have "filter (\<lambda>r. regListener r = f) (rev (listeners st)) = [?y]"
    using assms by (simp add: registrationsOf_def rev_filter [symmetric])
  then have "filter (\<lambda>r. regListener r = f)
          (removeFirst (\<lambda>r. regEvent r = e \<and> regListener r = f) (rev (listeners st))) = []"
    by (rule filter_removeFirst_single) simp_all
  then show ?thesis
    by (simp add: registrationsOf_def removeListener_def rev_filter [symmetric])
qed

lemma registrationsOf_removeListener_empty:
  assumes "registrationsOf g st = []"
  shows "registrationsOf g (removeListener e f st) = []"
proof -
  have "filter (\<lambda>r. regListener r = g) (rev (listeners st)) = []"
    using assms by (simp add: registrationsOf_def rev_filter [symmetric])
  then have "filter (\<lambda>r. regListener r = g)
          (removeFirst (\<lambda>r. regEvent r = e \<and> regListener r = f) (rev (listeners st))) = []"
    by (rule filter_removeFirst_empty)
  then show ?thesis
    by (simp add: registrationsOf_def removeListener_def rev_filter [symmetric])
qed

lemma readyPromises_removeListener [simp]:
  "readyPromises (removeListener e f st) = readyPromises st"
  by (simp add: removeListener_def)

lemma registrationsOf_settlePromise [simp]:
  "registrationsOf g (settlePromise pid p st) = registrationsOf g st"
  by (simp add: registrationsOf_def settlePromise_def)

lemma length_settlePromise [simp]:
  "length (readyPromises (settlePromise pid p st)) = length (readyPromises st)"
  by (simp add: settlePromise_def)

lemma settlePromise_other:
  "q \<noteq> pid \<Longrightarrow> readyPromises (settlePromise q p st) ! pid = readyPromises st ! pid"
  by (simp add: settlePromise_def)

lemma settlePromise_settled:
  "readyPromises st ! pid \<noteq> Pending \<Longrightarrow>
   readyPromises (settlePromise q p st) ! pid = readyPromises st ! pid"
  by (cases "q = pid") (auto simp: settlePromise_def)

lemma settlePromise_pending:
  "pid < length (readyPromises st) \<Longrightarrow> readyPromises st ! pid = Pending \<Longrightarrow>
   readyPromises (settlePromise pid p st) ! pid = p"
  by (simp add: settlePromise_def)

lemma invoke_registrations:
  assumes "f \<noteq> ReadyDone pid" "f \<noteq> ReadyFail pid" "g = ReadyDone pid \<or> g = ReadyFail pid"
  shows "registrationsOf g (invoke f s st) = registrationsOf g st"
proof (cases f)
  case (ReadyDone q)
  then have "ReadyFail q \<noteq> g" using assms by auto
  then show ?thesis using ReadyDone
    by (cases s) (simp_all add: registrationsOf_removeListener_other)
next
  case (ReadyFail q)
  then have "ReadyDone q \<noteq> g" using assms by auto
  then show ?thesis using ReadyFail
    by (cases s) (simp_all add: registrationsOf_removeListener_other)
next
  case (Observer n)
  then show ?thesis by (simp add: registrationsOf_def)
qed

lemma invoke_length [simp]:
  "length (readyPromises (invoke f s st)) = length (readyPromises st)"
  by (cases "(f, s, st)" rule: invoke.cases) simp_all

lemma invoke_promise_other:
  assumes "f \<noteq> ReadyDone pid" "f \<noteq> ReadyFail pid"
  shows "readyPromises (invoke f s st) ! pid = readyPromises st ! pid"
  using assms
  by (cases "(f, s, st)" rule: invoke.cases) (simp_all add: settlePromise_other)

lemma invoke_promise_settled:
  assumes "readyPromises st ! pid \<noteq> Pending"
  shows "readyPromises (invoke f s st) ! pid = readyPromises st ! pid"
  using assms
  by (cases "(f, s, st)" rule: invoke.cases) (simp_all add: settlePromise_settled)

lemma invoke_registrations_empty:
  assumes "registrationsOf g st = []"
  shows "registrationsOf g (invoke f s st) = []"
  using assms
  by (cases "(f, s, st)" rule: invoke.cases)
     (simp_all add: registrationsOf_removeListener_empty, simp add: registrationsOf_def)

lemma callListener_waiting:
  assumes "regListener r \<noteq> ReadyDone pid" "regListener r \<noteq> ReadyFail pid" "waitingFor pid st"
  shows "waitingFor pid (callListener s st r)"
proof -
  let ?st = "if regOnce r then removeListener (regEvent r) (regListener r) st else st"
  have a: "registrationsOf g ?st = registrationsOf g st" if "g = ReadyDone pid \<or> g = ReadyFail pid" for g
    using that assms(1,2) by (auto simp: registrationsOf_removeListener_other)
  have b: "readyPromises ?st = readyPromises st" by simp
  have "waitingFor pid ?st" using assms(3) a b by (simp add: waitingFor_def)
  then show ?thesis
    unfolding callListener_def waitingFor_def
    using invoke_registrations [OF assms(1,2)] invoke_promise_other [OF assms(1,2)]
    by simp
qed

lemma callListener_settled:
  assumes "settledAs pid p st" "p \<noteq> Pending"
  shows "settledAs pid p (callListener s st r)"
proof -
  let ?st = "if regOnce r then removeListener (regEvent r) (regListener r) st else st"
  have "settledAs pid p ?st"
    using assms(1) by (auto simp: settledAs_def detached_def registrationsOf_removeListener_empty)
  then show ?thesis
    unfolding callListener_def settledAs_def detached_def
    using assms(2) by (simp add: invoke_registrations_empty invoke_promise_settled)
qed

lemma callListener_done:
  assumes "waitingFor pid st"
  shows "settledAs pid (Resolved (d, cl))
           (callListener (Connection d cl) st
              \<lparr>regEvent = EvConnection, regOnce = True, regListener = ReadyDone pid\<rparr>)"
proof -
  let ?st1 = "removeListener EvConnection (ReadyDone pid) st"
  let ?st2 = "removeListener EvConnectionFailed (ReadyFail pid) ?st1"
  have d1: "registrationsOf (ReadyDone pid) ?st1 = []"
    using assms by (simp add: waitingFor_def registrationsOf_removeListener_single)
  have f1: "registrationsOf (ReadyFail pid) ?st1 = registrationsOf (ReadyFail pid) st"
    by (simp add: registrationsOf_removeListener_other)
  have d2: "registrationsOf (ReadyDone pid) ?st2 = []"
    using d1 by (rule registrationsOf_removeListener_empty)
  have f2: "registrationsOf (ReadyFail pid) ?st2 = []"
    using assms f1 by (simp add: waitingFor_def registrationsOf_removeListener_single)
  have p: "pid < length (readyPromises ?st2)" "readyPromises ?st2 ! pid = Pending"
    using assms by (simp_all add: waitingFor_def)
  show ?thesis
    unfolding callListener_def settledAs_def detached_def
    using d2 f2 p by (simp add: settlePromise_pending)
qed

lemma callListener_fail:
  assumes "waitingFor pid st"
  shows "settledAs pid (Rejected err)
           (callListener (ConnectionFailed err) st
              \<lparr>regEvent = EvConnectionFailed, regOnce = True, regListener = ReadyFail pid\<rparr>)"
proof -
  let ?st1 = "removeListener EvConnectionFailed (ReadyFail pid) st"
  let ?st2 = "removeListener EvConnection (ReadyDone pid) ?st1"
  have f1: "registrationsOf (ReadyFail pid) ?st1 = []"
    using assms by (simp add: waitingFor_def registrationsOf_removeListener_single)
  have d1: "registrationsOf (ReadyDone pid) ?st1 = registrationsOf (ReadyDone pid) st"
    by (simp add: registrationsOf_removeListener_other)
  have f2: "registrationsOf (ReadyFail pid) ?st2 = []"
    using f1 by (rule registrationsOf_removeListener_empty)
  have d2: "registrationsOf (ReadyDone pid) ?st2 = []"
    using assms d1 by (simp add: waitingFor_def registrationsOf_removeListener_single)
  have p: "pid < length (readyPromises ?st2)" "readyPromises ?st2 ! pid = Pending"
    using assms by (simp_all add: waitingFor_def)
  show ?thesis
    unfolding callListener_def settledAs_def detached_def
    using d2 f2 p by (simp add: settlePromise_pending)
qed

lemma foldl_settles:
  assumes step: "\<And>st'. waitingFor pid st' \<Longrightarrow> settledAs pid p (callListener s st' reg)"
    and np: "p \<noteq> Pending"
    and mine: "regListener reg = ReadyDone pid \<or> regListener reg = ReadyFail pid"
  shows "\<forall>r \<in> set rs. (regListener r = ReadyDone pid \<or> regListener r = ReadyFail pid) \<longrightarrow> r = reg \<Longrightarrow>
     (waitingFor pid st \<and> filter (\<lambda>r. r = reg) rs = [reg]) \<or>
     (settledAs pid p st \<and> filter (\<lambda>r. r = reg) rs = []) \<Longrightarrow>
     settledAs pid p (foldl (callListener s) st rs)"
proof (induction rs arbitrary: st)
  case Nil
  then show ?case by simp
next
  case (Cons r rs)
  have rest: "\<forall>r \<in> set rs. (regListener r = ReadyDone pid \<or> regListener r = ReadyFail pid) \<longrightarrow> r = reg"
    using Cons.prems(1) by simp
  show ?case
  proof (cases "r = reg")
    case True
    then have w: "waitingFor pid st" and none: "filter (\<lambda>r. r = reg) rs = []"
      using Cons.prems(2) by auto
    have "settledAs pid p (callListener s st r)" using step [OF w] True by simp
    then have "settledAs pid p (foldl (callListener s) (callListener s st r) rs)"
      using Cons.IH [OF rest] none by blast
    then show ?thesis by simp
  next
    case False
    then have other: "regListener r \<noteq> ReadyDone pid" "regListener r \<noteq> ReadyFail pid"
      using Cons.prems(1) by auto
    have "(waitingFor pid (callListener s st r) \<and> filter (\<lambda>r. r = reg) rs = [reg]) \<or>
          (settledAs pid p (callListener s st r) \<and> filter (\<lambda>r. r = reg) rs = [])"
      using Cons.prems(2) False callListener_waiting [OF other] callListener_settled [OF _ np]
      by auto
    then have "settledAs pid p (foldl (callListener s) (callListener s st r) rs)"
      by (rule Cons.IH [OF rest])
    then show ?thesis by simp
  qed
qed

lemma waitingFor_emitted [simp]:
  "waitingFor pid (st\<lparr>emitted := x\<rparr>) = waitingFor pid st"
  by (simp add: waitingFor_def registrationsOf_def)

lemma single_registration:
  assumes "registrationsOf f st = [reg]" "r \<in> set (listeners st)" "regListener r = f"
  shows "r = reg"
proof -
  have "r \<in> set (registrationsOf f st)" using assms(2,3) by (simp add: registrationsOf_def)
  then show ?thesis using assms(1) by simp
qed

lemma filter_eq_single:
  assumes "filter (\<lambda>r. regListener r = f) ls = [reg]"
  shows "filter (\<lambda>r. r = reg) ls = [reg]"
proof -
  have "reg \<in> set (filter (\<lambda>r. regListener r = f) ls)" using assms by simp
  then have rf: "regListener reg = f" by simp
  have "\<And>r. r \<in> set ls \<Longrightarrow> regListener r = f \<Longrightarrow> r = reg"
  proof -
    fix r assume "r \<in> set ls" "regListener r = f"
    then have "r \<in> set (filter (\<lambda>r. regListener r = f) ls)" by simp
    then show "r = reg" using assms by simp
  qed
  then have "filter (\<lambda>r. r = reg) ls = filter (\<lambda>r. regListener r = f) ls"
    using rf by (intro filter_cong) auto
  then show ?thesis using assms by simp
qed

lemma emit_connection_settles:
  assumes w: "waitingFor pid st"
  shows "settledAs pid (Resolved (d, cl)) (emit (Connection d cl) st)"
proof -
  let ?rd = "\<lparr>regEvent = EvConnection, regOnce = True, regListener = ReadyDone pid\<rparr>"
  let ?rf = "\<lparr>regEvent = EvConnectionFailed, regOnce = True, regListener = ReadyFail pid\<rparr>"
  let ?rs = "filter (\<lambda>r. regEvent r = EvConnection) (listeners st)"
  have rd: "registrationsOf (ReadyDone pid) st = [?rd]" and rf: "registrationsOf (ReadyFail pid) st = [?rf]"
    using w by (simp_all add: waitingFor_def)
  have a: "\<forall>r \<in> set ?rs. (regListener r = ReadyDone pid \<or> regListener r = ReadyFail pid) \<longrightarrow> r = ?rd"
  proof (intro ballI impI)
    fix r assume r: "r \<in> set ?rs" and l: "regListener r = ReadyDone pid \<or> regListener r = ReadyFail pid"
    from r have inl: "r \<in> set (listeners st)" and ev: "regEvent r = EvConnection" by simp_all
    from l show "r = ?rd"
    proof
      assume "regListener r = ReadyDone pid"
      then show ?thesis using single_registration [OF rd inl] by simp
    next
      assume "regListener r = ReadyFail pid"
      then have "r = ?rf" using single_registration [OF rf inl] by simp
      then show ?thesis using ev by simp
    qed
  qed
  have "filter (\<lambda>r. r = ?rd) (listeners st) = [?rd]"
    using rd unfolding registrationsOf_def by (rule filter_eq_single)
  moreover have "filter (\<lambda>r. r = ?rd) ?rs = filter (\<lambda>r. r = ?rd) (listeners st)"
    unfolding filter_filter by (rule filter_cong) auto
  ultimately have b: "filter (\<lambda>r. r = ?rd) ?rs = [?rd]" by simp
  show ?thesis
    unfolding emit_def eventOf.simps
    by (rule foldl_settles [where reg = ?rd, OF callListener_done _ _ a])
       (use w b in simp_all)
qed

lemma emit_connectionFailed_settles:
  assumes w: "waitingFor pid st"
  shows "settledAs pid (Rejected err) (emit (ConnectionFailed err) st)"
proof -
  let ?rd = "\<lparr>regEvent = EvConnection, regOnce = True, regListener = ReadyDone pid\<rparr>"
  let ?rf = "\<lparr>regEvent = EvConnectionFailed, regOnce = True, regListener = ReadyFail pid\<rparr>"
  let ?rs = "filter (\<lambda>r. regEvent r = EvConnectionFailed) (listeners st)"
  have rd: "registrationsOf (ReadyDone pid) st = [?rd]" and rf: "registrationsOf (ReadyFail pid) st = [?rf]"
    using w by (simp_all add: waitingFor_def)
  have a: "\<forall>r \<in> set ?rs. (regListener r = ReadyDone pid \<or> regListener r = ReadyFail pid) \<longrightarrow> r = ?rf"
  proof (intro ballI impI)
    fix r assume r: "r \<in> set ?rs" and l: "regListener r = ReadyDone pid \<or> regListener r = ReadyFail pid"
    from r have inl: "r \<in> set (listeners st)" and ev: "regEvent r = EvConnectionFailed" by simp_all
    from l show "r = ?rf"
    proof
      assume "regListener r = ReadyFail pid"
      then show ?thesis using single_registration [OF rf inl] by simp
    next
      assume "regListener r = ReadyDone pid"
      then have "r = ?rd" using single_registration [OF rd inl] by simp
      then show ?thesis using ev by simp
    qed
  qed
  have "filter (\<lambda>r. r = ?rf) (listeners st) = [?rf]"
    using rf unfolding registrationsOf_def by (rule filter_eq_single)
  moreover have "filter (\<lambda>r. r = ?rf) ?rs = filter (\<lambda>r. r = ?rf) (listeners st)"
    unfolding filter_filter by (rule filter_cong) auto
  ultimately have b: "filter (\<lambda>r. r = ?rf) ?rs = [?rf]" by simp
  show ?thesis
    unfolding emit_def eventOf.simps
    by (rule foldl_settles [where reg = ?rf, OF callListener_fail _ _ a])
       (use w b in simp_all)
qed



lemma ready_pending:
  assumes "error st = None" "\<not> connected st"
  shows "ready st = (length (readyPromises st),
           addListener EvConnectionFailed True (ReadyFail (length (readyPromises st)))
             (addListener EvConnection True (ReadyDone (length (readyPromises st)))
                (st\<lparr>readyPromises := readyPromises st @ [Pending]\<rparr>)))"
  using assms by (simp add: ready_def Let_def)

lemma wellFormed_fresh:
  assumes "wellFormed st" "listenerPromise f = Some (length (readyPromises st))"
  shows "filter (\<lambda>r. regListener r = f) (listeners st) = []"
proof -
  have "\<not> (regListener r = f)" if "r \<in> set (listeners st)" for r
  proof
    assume "regListener r = f"
    moreover have "case listenerPromise (regListener r) of
             Some pid \<Rightarrow> pid < length (readyPromises st) | None \<Rightarrow> True"
      using assms(1) that by (simp add: wellFormed_def list_all_iff)
    ultimately show False using assms(2) by simp
  qed
  then show ?thesis by (simp add: filter_empty_conv)
qed

lemma ready_waiting:
  assumes "error st = None" "\<not> connected st" "wellFormed st"
  shows "waitingFor (fst (ready st)) (snd (ready st))"
proof -
  let ?pid = "length (readyPromises st)"
  have d: "filter (\<lambda>r. regListener r = ReadyDone ?pid) (listeners st) = []"
    by (rule wellFormed_fresh [OF assms(3)]) simp
  have f: "filter (\<lambda>r. regListener r = ReadyFail ?pid) (listeners st) = []"
    by (rule wellFormed_fresh [OF assms(3)]) simp
  show ?thesis
    unfolding ready_pending [OF assms(1,2)]
    using d f
    by (simp add: waitingFor_def registrationsOf_def addListener_def nth_append)
qed







lemma waitingFor_cong:
  "waitingFor pid st \<Longrightarrow> listeners st' = listeners st \<Longrightarrow>
   readyPromises st' = readyPromises st \<Longrightarrow> waitingFor pid st'"
  by (simp add: waitingFor_def registrationsOf_def)

lemma updateConnectionStatus_listeners [simp]:
  "listeners (updateConnectionStatus st) = listeners st"
  "readyPromises (updateConnectionStatus st) = readyPromises st"
  by (simp_all add: updateConnectionStatus_def split: option.splits)

lemma runTick_settles:
  assumes "waitingFor pid st" "ticks st = EmitConnection # rest"
  shows "settledAs pid (Resolved (db st, client st)) (runTick st)"
proof -
  have "waitingFor pid (st\<lparr>ticks := rest\<rparr>)"
    using assms(1) by (rule waitingFor_cong) simp_all
  from emit_connection_settles [OF this, of "db st" "client st"] show ?thesis
    by (simp add: runTick_def assms(2))
qed

lemma fail_settles:
  assumes "waitingFor pid st"
  shows "settledAs pid (Rejected err) (fail err st)"
proof -
  have "waitingFor pid (updateConnectionStatus
          (st\<lparr>connecting := False, db := None, client := None, error := Some err\<rparr>))"
    using assms by (rule waitingFor_cong) simp_all
  from emit_connectionFailed_settles [OF this] show ?thesis
    by (simp add: fail_def)
qed


lemma construct_connecting0: "construct False [] (Some config0) = ([], Inr connecting0)"
  by (simp add: construct_def config0_def hasUrl_def newStorage_def connect_def
        resolveConnection_def createConnection_def connecting0_def)

lemma setDb_client:
  "setDb d (Some c) st =
     (None, (updateConnectionStatus
               (st\<lparr>connecting := False, db := Some (getDatabase d), client := Some c,
                   clientListeners := clientListeners st @ [BackendErrorEvent, ParseError, Timeout, Close]\<rparr>))
            \<lparr>ticks := ticks st @ [EmitConnection]\<rparr>)"
  by (simp add: setDb_def Let_def updateConnectionStatus_def)

lemma updateConnectionStatus_fields [simp]:
  "db (updateConnectionStatus st) = db st"
  "client (updateConnectionStatus st) = client st"
  "ticks (updateConnectionStatus st) = ticks st"
  "error (updateConnectionStatus st) = error st"
  "emitted (updateConnectionStatus st) = emitted st"
  "observed (updateConnectionStatus st) = observed st"
  "clientListeners (updateConnectionStatus st) = clientListeners st"
  by (simp_all add: updateConnectionStatus_def split: option.splits)


lemma sameConnection_refl [simp]: "sameConnection st st"
  by (simp add: sameConnection_def)

lemma sameConnection_trans:
  "sameConnection a b \<Longrightarrow> sameConnection b c \<Longrightarrow> sameConnection a c"
  by (simp add: sameConnection_def)

lemma sameConnection_removeListener [simp]: "sameConnection st (removeListener e f st)"
  by (simp add: sameConnection_def removeListener_def)

lemma sameConnection_settlePromise [simp]: "sameConnection st (settlePromise pid p st)"
  by (simp add: sameConnection_def settlePromise_def)

lemma sameConnection_invoke: "sameConnection st (invoke f s st)"
proof (cases "(f, s, st)" rule: invoke.cases)
  case (1 pid d cl st')
  then show ?thesis
    using sameConnection_trans [OF sameConnection_removeListener sameConnection_settlePromise]
    by simp
next
  case (2 pid err st')
  then show ?thesis
    using sameConnection_trans [OF sameConnection_removeListener sameConnection_settlePromise]
    by simp
next
  case (3 n s' st')
  then show ?thesis by (simp add: sameConnection_def)
qed simp_all

lemma sameConnection_callListener: "sameConnection st (callListener s st r)"
  unfolding callListener_def
  by (cases "regOnce r")
     (simp_all add: sameConnection_invoke
        sameConnection_trans [OF sameConnection_removeListener sameConnection_invoke])

lemma sameConnection_foldl: "sameConnection st (foldl (callListener s) st rs)"
proof (induction rs arbitrary: st)
  case Nil
  show ?case by simp
next
  case (Cons r rs)
  show ?case
    using sameConnection_trans [OF sameConnection_callListener Cons.IH] by simp
qed

lemma emit_emitted: "emitted (emit s st) = emitted st @ [s]"
  using sameConnection_foldl [of "st\<lparr>emitted := emitted st @ [s]\<rparr>" s]
  by (simp add: emit_def sameConnection_def)

lemma emit_sameConnection:
  "sameConnection (st\<lparr>emitted := emitted st @ [s]\<rparr>) (emit s st)"
  unfolding emit_def by (rule sameConnection_foldl)

lemma observed_removeListener [simp]: "observed (removeListener e f st) = observed st"
  by (simp add: removeListener_def)

lemma observed_settlePromise [simp]: "observed (settlePromise pid p st) = observed st"
  by (simp add: settlePromise_def)

lemma observed_invoke:
  "observed (invoke f s st) = observed st @ (case f of Observer n \<Rightarrow> [(n, s)] | _ \<Rightarrow> [])"
  by (cases "(f, s, st)" rule: invoke.cases) simp_all

lemma observed_callListener:
  "observed (callListener s st r) =
     observed st @ (case regListener r of Observer n \<Rightarrow> [(n, s)] | _ \<Rightarrow> [])"
  by (simp add: callListener_def observed_invoke)

lemma observed_foldl:
  "observed (foldl (callListener s) st rs) =
     observed st @
     map (\<lambda>n. (n, s)) (concat (map (\<lambda>r. case regListener r of Observer n \<Rightarrow> [n] | _ \<Rightarrow> []) rs))"
proof (induction rs arbitrary: st)
  case Nil
  show ?case by simp
next
  case (Cons r rs)
  show ?case
    by (cases "regListener r") (simp_all add: Cons.IH observed_callListener)
qed

lemma emit_observed:
  "observed (emit s st) = observed st @ map (\<lambda>n. (n, s)) (observersOf (eventOf s) (listeners st))"
  by (simp add: emit_def observed_foldl observersOf_def)

lemma connected_updateConnectionStatus:
  "connected (updateConnectionStatus st) = linkUp st"
  by (simp add: updateConnectionStatus_def linkUp_def split: option.splits)

lemma emit_connected: "connected (emit s st) = connected st"
  using emit_sameConnection [of st s] by (simp add: sameConnection_def)

lemma emit_connecting: "connecting (emit s st) = connecting st"
  using emit_sameConnection [of st s] by (simp add: sameConnection_def)

lemma emit_db: "db (emit s st) = db st" and emit_client: "client (emit s st) = client st"
  and emit_error: "error (emit s st) = error st" and emit_ticks: "ticks (emit s st) = ticks st"
  and emit_clientListeners: "clientListeners (emit s st) = clientListeners st"
  using emit_sameConnection [of st s] by (simp_all add: sameConnection_def)

lemma filter_backend_events:
  "filter (\<lambda>l. l = ev) [BackendErrorEvent, ParseError, Timeout, Close] = [ev]"
  by (cases ev) simp_all



lemma connected0_eq:
  "connected0 = connecting0\<lparr>connecting := False, db := Some db0, client := Some client0,
                    clientListeners := [BackendErrorEvent, ParseError, Timeout, Close],
                    connected := True, ticks := [],
                    emitted := [Connection (Some db0) (Some client0)],
                    listeners := [\<lparr>regEvent = EvDbError, regOnce = False, regListener = Observer 1\<rparr>]\<rparr>"
proof -
  have s1: "snd (setDb db0 (Some client0) connecting0) =
      connecting0\<lparr>connecting := False, db := Some db0, client := Some client0,
                    clientListeners := [BackendErrorEvent, ParseError, Timeout, Close],
                    connected := True, ticks := [EmitConnection]\<rparr>"
    by (simp add: setDb_client updateConnectionStatus_def getDatabase_def connecting0_def
          newStorage_def client0_def)
  show ?thesis
    unfolding connected0_def s1
    by (simp add: runTick_def emit_def addListener_def connecting0_def newStorage_def)
qed

lemma linkStatus_fields [simp]:
  "connecting (linkStatus up st) = connecting st"
  "connected (linkStatus up st) = connected st"
  by (simp_all add: linkStatus_def)

lemma errEvent_flags:
  "connecting (errEvent err st) = connecting (updateConnectionStatus st)"
  "connected (errEvent err st) = linkUp st"
  "db (errEvent err st) = db st"
  "client (errEvent err st) = client st"
  by (simp_all add: errEvent_def Let_def emit_connecting emit_connected emit_db emit_client
        connected_updateConnectionStatus)

lemma connecting_updateConnectionStatus:
  "connecting (updateConnectionStatus st) = (connecting st \<and> db st \<noteq> None)"
  by (simp add: updateConnectionStatus_def split: option.splits)

lemma fail_flags:
  "connecting (fail err st) = False" "db (fail err st) = None" "error (fail err st) = Some err"
  by (simp_all add: fail_def emit_connecting emit_db emit_error connecting_updateConnectionStatus)

lemma linkUp_linkStatus:
  "db st = Some d \<Longrightarrow> client st = Some c \<Longrightarrow> isConnected c = Some b \<Longrightarrow>
   linkUp (linkStatus up st) = up"
  by (simp add: linkUp_def linkStatus_def)

lemma linkUp_no_db: "db st = None \<Longrightarrow> \<not> linkUp st"
  by (simp add: linkUp_def)

text \<open>
  The storage says neither connecting nor connected, its link is up, and \<^verbatim>\<open>_handleFile\<close>
  calls \<^verbatim>\<open>fromFile\<close>.
\<close>

theorem stale_flag_counterexample:
  "\<not> connecting reconnected0 \<and> \<not> connected reconnected0
   \<and> fst (handleFile reconnected0) = FromFile"
proof -
  let ?down = "linkStatus False connected0"
  have dl: "clientListeners ?down = [BackendErrorEvent, ParseError, Timeout, Close]"
    by (simp add: connected0_eq linkStatus_def)
  have ev: "clientEvent Close None ?down = errEvent None ?down"
    by (simp only: clientEvent_def dl filter_backend_events foldl.simps)
  have down: "\<not> linkUp ?down" "\<not> connecting ?down"
    "db ?down = Some (db0\<lparr>topologyConnected := False\<rparr>)"
    "client ?down = Some (client0\<lparr>isConnected := Some False\<rparr>)"
    by (simp_all add: connected0_eq linkStatus_def linkUp_def client0_def connecting0_def
          newStorage_def)
  have a: "\<not> connecting reconnected0"
    unfolding reconnected0_def ev
    using down by (simp add: errEvent_flags connecting_updateConnectionStatus)
  have b: "\<not> connected reconnected0"
    unfolding reconnected0_def ev using down by (simp add: errEvent_flags)
  have "db (errEvent None ?down) = Some (db0\<lparr>topologyConnected := False\<rparr>)"
    "client (errEvent None ?down) = Some (client0\<lparr>isConnected := Some False\<rparr>)"
    by (simp_all only: errEvent_flags down)
  then have up: "linkUp reconnected0"
    unfolding reconnected0_def ev
    using linkUp_linkStatus [of "errEvent None ?down" _ _ False True] by simp
  have c: "fst (handleFile reconnected0) = FromFile"
    using a up by (simp add: handleFile_def Let_def connected_updateConnectionStatus)
  show ?thesis using a b c by simp
qed

text \<open>
  C9, as the code has it. \<^verbatim>\<open>_handleFile\<close> on a storage that is not connecting derives
  the connected flag from the link status of the handles first. When the link is not up
  it calls the callback with the error and does nothing else: \<^verbatim>\<open>fromFile\<close> is not called,
  no listener and no promise is added. That is so after every connection failure and, for
  a client that has \<^verbatim>\<open>isConnected\<close>, while the link is down. When the link is up it
  calls \<^verbatim>\<open>fromFile\<close>; a storage that is connecting waits for \<^verbatim>\<open>ready\<close>.
\<close>

theorem handleFile_not_open:
  "(\<not> connecting st \<and> \<not> linkUp st \<longrightarrow>
      handleFile st =
        (Callback (Error ''The database connection must be open to store files''),
         updateConnectionStatus st) \<and>
      listeners (snd (handleFile st)) = listeners st \<and>
      readyPromises (snd (handleFile st)) = readyPromises st \<and>
      emitted (snd (handleFile st)) = emitted st)
   \<and> fst (handleFile (fail err st)) =
        Callback (Error ''The database connection must be open to store files'')
   \<and> (\<not> connecting st \<and> client st = Some cl \<and> isConnected cl \<noteq> None \<and> db st \<noteq> None \<longrightarrow>
        fst (handleFile (linkStatus False st)) =
          Callback (Error ''The database connection must be open to store files''))
   \<and> (\<not> connecting st \<and> linkUp st \<longrightarrow> handleFile st = (FromFile, updateConnectionStatus st))
   \<and> (connecting st \<longrightarrow> fst (handleFile st) = AfterReady (length (readyPromises st)))"
proof (intro conjI impI)
  assume h: "\<not> connecting st \<and> \<not> linkUp st"
  then show 1: "handleFile st =
        (Callback (Error ''The database connection must be open to store files''),
         updateConnectionStatus st)"
    by (simp add: handleFile_def Let_def connected_updateConnectionStatus)
  show "listeners (snd (handleFile st)) = listeners st"
    "readyPromises (snd (handleFile st)) = readyPromises st"
    "emitted (snd (handleFile st)) = emitted st"
    unfolding 1 by simp_all
next
  have "\<not> linkUp (fail err st)" by (rule linkUp_no_db) (rule fail_flags)
  then show "fst (handleFile (fail err st)) =
        Callback (Error ''The database connection must be open to store files'')"
    by (simp add: handleFile_def Let_def connected_updateConnectionStatus fail_flags)
next
  assume h: "\<not> connecting st \<and> client st = Some cl \<and> isConnected cl \<noteq> None \<and> db st \<noteq> None"
  then have "\<not> linkUp (linkStatus False st)"
    by (auto simp: linkUp_def linkStatus_def)
  then show "fst (handleFile (linkStatus False st)) =
          Callback (Error ''The database connection must be open to store files'')"
    using h by (simp add: handleFile_def Let_def connected_updateConnectionStatus)
next
  assume "\<not> connecting st \<and> linkUp st"
  then show "handleFile st = (FromFile, updateConnectionStatus st)"
    by (simp add: handleFile_def Let_def connected_updateConnectionStatus)
next
  assume "connecting st"
  then show "fst (handleFile st) = AfterReady (length (readyPromises st))"
    by (simp add: handleFile_def ready_def Let_def split: option.splits)
qed

theorem handleFile_not_open_witness:
  "fst (handleFile (fail (BackendError ''refused'') connecting0)) =
     Callback (Error ''The database connection must be open to store files'')
   \<and> fst (handleFile (linkStatus False connected0)) =
     Callback (Error ''The database connection must be open to store files'')
   \<and> fst (handleFile connected0) = FromFile
   \<and> fst (handleFile connecting0) = AfterReady 0"
proof -
  note inst = handleFile_not_open [of connected0 "BackendError ''refused''" client0]
  have pre: "\<not> connecting connected0 \<and> client connected0 = Some client0 \<and>
             isConnected client0 \<noteq> None \<and> db connected0 \<noteq> None"
    by (simp add: connected0_eq client0_def connecting0_def newStorage_def)
  have up: "\<not> connecting connected0 \<and> linkUp connected0"
    by (simp add: connected0_eq client0_def connecting0_def newStorage_def linkUp_def)
  have a: "fst (handleFile (fail (BackendError ''refused'') connecting0)) =
     Callback (Error ''The database connection must be open to store files'')"
    using handleFile_not_open [of connecting0 "BackendError ''refused''" client0] by blast
  have b: "fst (handleFile (linkStatus False connected0)) =
     Callback (Error ''The database connection must be open to store files'')"
    using inst pre by blast
  have c: "fst (handleFile connected0) = FromFile"
    using inst up by simp
  have "connecting connecting0" "readyPromises connecting0 = []"
    by (simp_all add: connecting0_def newStorage_def)
  then have d: "fst (handleFile connecting0) = AfterReady 0"
    using handleFile_not_open [of connecting0 "BackendError ''refused''" client0] by simp
  show ?thesis using a b c d by simp
qed

lemma updateConnectionStatus_more [simp]:
  "awaiting (updateConnectionStatus st) = awaiting st"
  "outcome (updateConnectionStatus st) = outcome st"
  "connects (updateConnectionStatus st) = connects st"
  "cacheIndex (updateConnectionStatus st) = cacheIndex st"
  "caching (updateConnectionStatus st) = caching st"
  "configuration (updateConnectionStatus st) = configuration st"
  by (simp_all add: updateConnectionStatus_def split: option.splits)

lemma setDb_no_client:
  "client st = None \<Longrightarrow>
   setDb d None st =
     (Some (TypeError ''Cannot read property on of null''),
      st\<lparr>connecting := False, db := Some (getDatabase d)\<rparr>)"
  by (simp add: setDb_def Let_def)

lemma resolveConnection_blank:
  assumes "blank st" "resolveConnection c st = (c', st')"
  shows "constructed st' \<and> awaiting st' \<noteq> NoWait"
proof -
  from assms(1) have idx: "caching st \<Longrightarrow> \<exists>i. cacheIndex st = Some i"
    by (auto simp: blank_def)
  show ?thesis
  proof (cases "dbOpt (configuration st) \<noteq> Missing")
    case True
    then have "st' = st\<lparr>connecting := True, awaiting := AwaitGiven\<rparr>"
      using assms(2) by (simp add: resolveConnection_def Let_def)
    then show ?thesis using assms(1) by (simp add: blank_def constructed_def)
  next
    case False
    show ?thesis
    proof (cases "caching st")
      case nc: False
      then have "st' = createConnection (st\<lparr>connecting := True\<rparr>)"
        using assms(2) False by (simp add: resolveConnection_def Let_def)
      then show ?thesis using assms(1)
        by (simp add: blank_def constructed_def createConnection_def)
    next
      case True
      then obtain i where i: "cacheIndex st = Some i" using idx by blast
      have "st' = createConnection (st\<lparr>connecting := True\<rparr>) \<or>
            st' = st\<lparr>connecting := True, awaiting := AwaitCache i\<rparr>"
        using assms(2) False True i
        by (auto simp: resolveConnection_def Let_def split: if_splits)
      then show ?thesis using assms(1)
        by (auto simp: blank_def constructed_def createConnection_def)
    qed
  qed
qed

lemma setDb_blank:
  assumes "blank st" "setDb d cl st = (None, st')"
  shows "constructed st' \<and> awaiting st' = NoWait"
proof (cases cl)
  case None
  then show ?thesis using assms by (simp add: setDb_no_client blank_def)
next
  case (Some c)
  then show ?thesis using assms
    by (auto simp: setDb_client blank_def constructed_def connecting_updateConnectionStatus)
qed

lemma connect_blank:
  assumes "blank st" "connect c st = (c', Inr st')"
  shows "constructed st'"
proof (cases "dbOpt (configuration st)")
  case Missing
  then obtain c2 st2 where r: "resolveConnection c st = (c2, st2)" and "st' = st2"
    using assms(2) by (auto simp: connect_def split: prod.splits)
  then show ?thesis using resolveConnection_blank [OF assms(1) r] by simp
next
  case Promised
  then obtain c2 st2 where r: "resolveConnection c st = (c2, st2)" and "st' = st2"
    using assms(2) by (auto simp: connect_def split: prod.splits)
  then show ?thesis using resolveConnection_blank [OF assms(1) r] by simp
next
  case (Given d)
  show ?thesis
  proof (cases "clientOpt (configuration st)")
    case Missing
    then have "setDb d None st = (None, st')"
      using assms(2) Given by (auto simp: connect_def split: prod.splits option.splits)
    then show ?thesis using setDb_blank [OF assms(1)] by blast
  next
    case (Given cl)
    then have "setDb d (Some cl) st = (None, st')"
      using assms(2) \<open>dbOpt (configuration st) = Given d\<close>
      by (auto simp: connect_def split: prod.splits option.splits)
    then show ?thesis using setDb_blank [OF assms(1)] by blast
  next
    case Promised
    then obtain c2 st2 where r: "resolveConnection c st = (c2, st2)" and "st' = st2"
      using assms(2) Given by (auto simp: connect_def split: prod.splits)
    then show ?thesis using resolveConnection_blank [OF assms(1) r] by simp
  qed
qed

lemma blank_newStorage: "blank (newStorage leg cfg)"
  by (simp add: blank_def newStorage_def)

lemma construct_constructed:
  assumes "construct leg c conf = (c', Inr st)"
  shows "constructed st"
proof (cases conf)
  case None
  then show ?thesis using assms by (simp add: construct_def)
next
  case (Some cfg)
  let ?st0 = "newStorage leg cfg"
  let ?st1 = "if hasUrl cfg
              then ?st0\<lparr>caching := cacheEnabled (cacheOpt cfg), storageOptions := Some (options cfg)\<rparr>
              else ?st0"
  have ok: "\<not> (\<not> hasUrl cfg \<and> dbOpt cfg = Missing)"
    using assms Some by (auto simp: construct_def)
  show ?thesis
  proof (cases "caching ?st1")
    case True
    obtain idx c1 where ini: "initialize c \<lparr>sigUrl = url cfg, sigName = cacheNameOf (cacheOpt cfg),
                                          sigInit = options cfg\<rparr> = (idx, c1)"
      by (cases "initialize c \<lparr>sigUrl = url cfg, sigName = cacheNameOf (cacheOpt cfg),
                                sigInit = options cfg\<rparr>") blast
    let ?st2 = "?st1\<lparr>cacheName := Some (cacheNameOf (cacheOpt cfg)), cacheIndex := Some idx\<rparr>"
    have b: "blank ?st2" using True by (simp add: blank_def newStorage_def split: if_splits)
    have "connect c1 ?st2 = (c', Inr st)"
      using assms Some ok True ini by (simp add: construct_def Let_def)
    then show ?thesis by (rule connect_blank [OF b])
  next
    case False
    have b: "blank ?st1" using False by (simp add: blank_def newStorage_def split: if_splits)
    have "connect c ?st1 = (c', Inr st)"
      using assms Some ok False by (simp add: construct_def Let_def)
    then show ?thesis by (rule connect_blank [OF b])
  qed
qed

lemma watch_fields [simp]:
  "listeners (watch n st) =
     listeners st @ [\<lparr>regEvent = EvConnection, regOnce = False, regListener = Observer n\<rparr>,
                     \<lparr>regEvent = EvConnectionFailed, regOnce = False, regListener = Observer n\<rparr>]"
  "observed (watch n st) = observed st" "emitted (watch n st) = emitted st"
  "ticks (watch n st) = ticks st" "db (watch n st) = db st" "client (watch n st) = client st"
  "readyPromises (watch n st) = readyPromises st"
  by (simp_all add: watch_def addListener_def)

lemma observersOf_watch:
  "observersOf EvConnection
     [\<lparr>regEvent = EvConnection, regOnce = False, regListener = Observer n\<rparr>,
      \<lparr>regEvent = EvConnectionFailed, regOnce = False, regListener = Observer n\<rparr>] = [n]"
  "observersOf EvConnectionFailed
     [\<lparr>regEvent = EvConnection, regOnce = False, regListener = Observer n\<rparr>,
      \<lparr>regEvent = EvConnectionFailed, regOnce = False, regListener = Observer n\<rparr>] = [n]"
  by (simp_all add: observersOf_def)

lemma runTick_delivers:
  assumes "ticks st = EmitConnection # rest"
  shows "observed (runTick st) =
           observed st @ map (\<lambda>n. (n, Connection (db st) (client st)))
                           (observersOf EvConnection (listeners st))"
    and "emitted (runTick st) = emitted st @ [Connection (db st) (client st)]"
    and "ticks (runTick st) = rest"
  using assms by (simp_all add: runTick_def emit_observed emit_emitted emit_ticks)

lemma fail_delivers:
  "observed (fail err st) =
     observed st @ map (\<lambda>n. (n, ConnectionFailed err))
                     (observersOf EvConnectionFailed (listeners st))"
  "emitted (fail err st) = emitted st @ [ConnectionFailed err]"
  by (simp_all add: fail_def emit_observed emit_emitted)

lemma setDb_silent:
  "emitted (snd (setDb d cl st)) = emitted st" "observed (snd (setDb d cl st)) = observed st"
  "listeners (snd (setDb d cl st)) = listeners st"
  by (cases cl; simp add: setDb_def Let_def split: option.splits)+

lemma settle_rejected: "settle (Inl err) st = fail err (st\<lparr>awaiting := NoWait, outcome := Some (Inl err)\<rparr>)"
  by (simp add: settle_def)

lemma settle_resolved:
  "settle (Inr (d, Some cl)) st =
     snd (setDb d (Some cl) (st\<lparr>awaiting := NoWait, outcome := Some (Inr (d, Some cl))\<rparr>))"
  by (simp add: settle_def setDb_client)

lemma settle_no_client:
  "client st = None \<Longrightarrow>
   settle (Inr (d, None)) st =
     fail (TypeError ''Cannot read property on of null'')
       (st\<lparr>awaiting := NoWait, outcome := Some (Inr (d, None)),
           connecting := False, db := Some (getDatabase d)\<rparr>)"
  by (simp add: settle_def setDb_no_client)

lemma setDb_client_fields:
  "db (snd (setDb d (Some cl) st)) = Some (getDatabase d)"
  "client (snd (setDb d (Some cl) st)) = Some cl"
  "ticks (snd (setDb d (Some cl) st)) = ticks st @ [EmitConnection]"
  "readyPromises (snd (setDb d (Some cl) st)) = readyPromises st"
  by (simp_all add: setDb_client)

lemma constructed_ready:
  assumes "constructed st" "\<not> connected st"
  shows "waitingFor 0 (snd (ready st))"
proof -
  have "error st = None \<and> \<not> connected st \<and> wellFormed st"
    using assms by (simp add: constructed_def wellFormed_def)
  then have "waitingFor (fst (ready st)) (snd (ready st))" by (simp add: ready_waiting)
  moreover have "fst (ready st) = 0"
    using assms by (simp add: ready_def constructed_def Let_def)
  ultimately show ?thesis by simp
qed

lemma ready_fields:
  "ticks (snd (ready st)) = ticks st" "db (snd (ready st)) = db st"
  "client (snd (ready st)) = client st"
  by (simp_all add: ready_def Let_def addListener_def split: option.splits)

text \<open>
  C5. The constructor emits nothing and calls no listener: when it returns, either the
  connection signal is queued for the next tick or the storage waits for a promise. A
  listener that the user attaches after the constructor has returned is called exactly
  once, with the first outcome: with the connection signal when the queued tick runs, with
  connectionFailed when the promise rejects or \<^verbatim>\<open>_setDb\<close> throws in its handler, and
  with the connection signal on the tick after the handler of a resolved promise, which
  itself emits nothing. A call of \<^verbatim>\<open>ready\<close> made after the constructor settles the same
  way. In every state \<^verbatim>\<open>_setDb\<close> emits nothing, and the queued tick and \<^verbatim>\<open>_fail\<close> call
  every listener attached by then.
\<close>

theorem signals_deferred:
  "(construct leg c conf = (c', Inr st) \<longrightarrow>
      emitted st = [] \<and> observed st = [] \<and> listeners st = [] \<and>
      (awaiting st = NoWait \<longrightarrow>
         ticks st = [EmitConnection] \<and>
         observed (runTick (watch n st)) = [(n, Connection (db st) (client st))] \<and>
         emitted (runTick (watch n st)) = [Connection (db st) (client st)] \<and>
         ticks (runTick (watch n st)) = [] \<and>
         (\<not> connected st \<longrightarrow>
            settledAs 0 (Resolved (db st, client st)) (runTick (snd (ready st))))) \<and>
      (awaiting st \<noteq> NoWait \<longrightarrow>
         ticks st = [] \<and>
         observed (settle (Inl err) (watch n st)) = [(n, ConnectionFailed err)] \<and>
         emitted (settle (Inl err) (watch n st)) = [ConnectionFailed err] \<and>
         observed (settle (Inr (d, Some cl)) (watch n st)) = [] \<and>
         emitted (settle (Inr (d, Some cl)) (watch n st)) = [] \<and>
         ticks (settle (Inr (d, Some cl)) (watch n st)) = [EmitConnection] \<and>
         observed (runTick (settle (Inr (d, Some cl)) (watch n st))) =
           [(n, Connection (Some (getDatabase d)) (Some cl))] \<and>
         ticks (runTick (settle (Inr (d, Some cl)) (watch n st))) = [] \<and>
         observed (settle (Inr (d, None)) (watch n st)) =
           [(n, ConnectionFailed (TypeError ''Cannot read property on of null''))] \<and>
         settledAs 0 (Rejected err) (settle (Inl err) (snd (ready st))) \<and>
         settledAs 0 (Resolved (Some (getDatabase d), Some cl))
           (runTick (settle (Inr (d, Some cl)) (snd (ready st))))))
   \<and> emitted (snd (setDb d' cl' st')) = emitted st'
   \<and> observed (snd (setDb d' cl' st')) = observed st'
   \<and> (ticks st' = EmitConnection # rest \<longrightarrow>
        observed (runTick st') =
          observed st' @ map (\<lambda>m. (m, Connection (db st') (client st')))
                           (observersOf EvConnection (listeners st')))
   \<and> observed (fail err st') =
        observed st' @ map (\<lambda>m. (m, ConnectionFailed err))
                        (observersOf EvConnectionFailed (listeners st'))"
proof (intro conjI impI)
  assume "construct leg c conf = (c', Inr st)"
  then have cs: "constructed st" by (rule construct_constructed)
  then show e: "emitted st = []" and o: "observed st = []" and l: "listeners st = []"
    by (simp_all add: constructed_def)
  {
    assume nw: "awaiting st = NoWait"
    then show t: "ticks st = [EmitConnection]" using cs by (simp add: constructed_def)
    then have tw: "ticks (watch n st) = EmitConnection # []" by simp
    show "observed (runTick (watch n st)) = [(n, Connection (db st) (client st))]"
      using runTick_delivers(1) [OF tw] by (simp add: o l observersOf_watch)
    show "emitted (runTick (watch n st)) = [Connection (db st) (client st)]"
      using runTick_delivers(2) [OF tw] by (simp add: e)
    show "ticks (runTick (watch n st)) = []"
      using runTick_delivers(3) [OF tw] by simp
    {
      assume nc: "\<not> connected st"
      have w: "waitingFor 0 (snd (ready st))" using cs nc by (rule constructed_ready)
      have "ticks (snd (ready st)) = EmitConnection # []" by (simp add: ready_fields t)
      from runTick_settles [OF w this]
      show "settledAs 0 (Resolved (db st, client st)) (runTick (snd (ready st)))"
        by (simp add: ready_fields)
    }
  }
  {
    assume aw: "awaiting st \<noteq> NoWait"
    then have f: "ticks st = []" "client st = None" "\<not> connected st"
      using cs by (simp_all add: constructed_def)
    show "ticks st = []" by (rule f)
    show "observed (settle (Inl err) (watch n st)) = [(n, ConnectionFailed err)]"
      by (simp add: settle_rejected fail_delivers o l observersOf_watch)
    show "emitted (settle (Inl err) (watch n st)) = [ConnectionFailed err]"
      by (simp add: settle_rejected fail_delivers e)
    show "observed (settle (Inr (d, Some cl)) (watch n st)) = []"
      by (simp add: settle_resolved setDb_silent o)
    show "emitted (settle (Inr (d, Some cl)) (watch n st)) = []"
      by (simp add: settle_resolved setDb_silent e)
    show t2: "ticks (settle (Inr (d, Some cl)) (watch n st)) = [EmitConnection]"
      by (simp add: settle_resolved setDb_client_fields f)
    show "observed (runTick (settle (Inr (d, Some cl)) (watch n st))) =
           [(n, Connection (Some (getDatabase d)) (Some cl))]"
      using runTick_delivers(1) [of "settle (Inr (d, Some cl)) (watch n st)" "[]"] t2
      by (simp add: settle_resolved setDb_silent setDb_client_fields o l observersOf_watch)
    show "ticks (runTick (settle (Inr (d, Some cl)) (watch n st))) = []"
      using runTick_delivers(3) [of "settle (Inr (d, Some cl)) (watch n st)" "[]"] t2 by simp
    show "observed (settle (Inr (d, None)) (watch n st)) =
           [(n, ConnectionFailed (TypeError ''Cannot read property on of null''))]"
      by (simp add: settle_no_client f fail_delivers o l observersOf_watch)
    have w: "waitingFor 0 (snd (ready st))" using cs f(3) by (rule constructed_ready)
    have "waitingFor 0 ((snd (ready st))\<lparr>awaiting := NoWait, outcome := Some (Inl err)\<rparr>)"
      using w by (rule waitingFor_cong) simp_all
    then show "settledAs 0 (Rejected err) (settle (Inl err) (snd (ready st)))"
      unfolding settle_rejected by (rule fail_settles)
    let ?s = "settle (Inr (d, Some cl)) (snd (ready st))"
    have w2: "waitingFor 0 ?s"
      using w unfolding settle_resolved
      by (rule waitingFor_cong) (simp_all add: setDb_silent setDb_client_fields)
    have "ticks ?s = EmitConnection # []"
      by (simp add: settle_resolved setDb_client_fields ready_fields f)
    from runTick_settles [OF w2 this]
    show "settledAs 0 (Resolved (Some (getDatabase d), Some cl)) (runTick ?s)"
      by (simp add: settle_resolved setDb_client_fields)
  }
next
  show "emitted (snd (setDb d' cl' st')) = emitted st'"
    "observed (snd (setDb d' cl' st')) = observed st'"
    by (rule setDb_silent)+
next
  assume "ticks st' = EmitConnection # rest"
  then show "observed (runTick st') =
          observed st' @ map (\<lambda>m. (m, Connection (db st') (client st')))
                           (observersOf EvConnection (listeners st'))"
    by (rule runTick_delivers)
next
  show "observed (fail err st') =
        observed st' @ map (\<lambda>m. (m, ConnectionFailed err))
                        (observersOf EvConnectionFailed (listeners st'))"
    by (rule fail_delivers)
qed

lemma construct_given0:
  "construct False [] (Some configGiven0) =
     ([], Inr (snd (setDb db0 (Some client0) (newStorage False configGiven0))))"
  by (simp add: construct_def connect_def setDb_client hasUrl_def configGiven0_def newStorage_def)

theorem signals_deferred_witness:
  "(case construct False [] (Some config0) of
      (c, Inr st) \<Rightarrow>
        emitted st = [] \<and>
        observed (settle (Inl (BackendError ''refused'')) (watch 1 st)) =
          [(1, ConnectionFailed (BackendError ''refused''))] \<and>
        observed (settle (Inr (db0, Some client0)) (watch 1 st)) = [] \<and>
        observed (runTick (settle (Inr (db0, Some client0)) (watch 1 st))) =
          [(1, Connection (Some db0) (Some client0))]
    | (c, Inl err) \<Rightarrow> False)
   \<and> (case construct False [] (Some configGiven0) of
      (c, Inr st) \<Rightarrow>
        emitted st = [] \<and> ticks st = [EmitConnection] \<and>
        observed (runTick (watch 1 st)) = [(1, Connection (Some db0) (Some client0))]
    | (c, Inl err) \<Rightarrow> False)"
proof -
  have aw: "awaiting connecting0 \<noteq> NoWait"
    by (simp add: connecting0_def newStorage_def)
  note a = signals_deferred [of False "[]" "Some config0" "[]" connecting0 1
      "BackendError ''refused''" db0 client0]
  have 1: "emitted connecting0 = [] \<and>
        observed (settle (Inl (BackendError ''refused'')) (watch 1 connecting0)) =
          [(1, ConnectionFailed (BackendError ''refused''))] \<and>
        observed (settle (Inr (db0, Some client0)) (watch 1 connecting0)) = [] \<and>
        observed (runTick (settle (Inr (db0, Some client0)) (watch 1 connecting0))) =
          [(1, Connection (Some db0) (Some client0))]"
    using a [THEN conjunct1] construct_connecting0 aw by (simp add: getDatabase_def)
  let ?st = "snd (setDb db0 (Some client0) (newStorage False configGiven0))"
  have nw: "awaiting ?st = NoWait" "db ?st = Some db0" "client ?st = Some client0"
    by (simp_all add: setDb_client newStorage_def getDatabase_def)
  note b = signals_deferred [of False "[]" "Some configGiven0" "[]" ?st 1]
  have 2: "emitted ?st = [] \<and> ticks ?st = [EmitConnection] \<and>
        observed (runTick (watch 1 ?st)) = [(1, Connection (Some db0) (Some client0))]"
    using b [THEN conjunct1] construct_given0 nw by simp
  show ?thesis
    unfolding construct_connecting0 construct_given0 using 1 2 by simp
qed

lemma settleUpload_fields [simp]:
  "upOptions (settleUpload p u) = upOptions u"
  "errorListeners (settleUpload p u) = errorListeners u"
  "endListeners (settleUpload p u) = endListeners u"
  "finishListeners (settleUpload p u) = finishListeners u"
  "openPending (settleUpload p u) = openPending u"
  "closePending (settleUpload p u) = closePending u"
  "piping (settleUpload p u) = piping u"
  "upWriter (settleUpload p u) = upWriter u"
  by (simp_all add: settleUpload_def)

lemma settleUpload_result:
  "upResult (settleUpload p u) = (if upResult u = Pending then p else upResult u)"
  by (simp add: settleUpload_def)

lemma emitError_eq:
  "emitError err (st, u) =
     (emit (StreamError err (upOptions u)) st, settleUpload (Rejected err) u)"
  by (simp add: emitError_def)

lemma emitFile_eq:
  "emitFile f (st, u) =
     (emit (File (storedFile (upOptions u) f)) st,
      settleUpload (Resolved (storedFile (upOptions u) f)) u)"
  by (simp add: emitFile_def)

lemma inProgress_emitError:
  assumes "inProgress opts before (st, u)"
    and "upOptions u' = upOptions u" "errorListeners u' = errorListeners u"
       "finishListeners u' = finishListeners u"
  shows "inProgress opts before (emitError err (st, u'))"
  using assms
  by (simp add: inProgress_def emitError_eq settleUpload_result)

lemma inProgress_emitFile:
  assumes "inProgress opts before (st, u)"
    and "upOptions u' = upOptions u" "errorListeners u' = errorListeners u"
       "finishListeners u' = finishListeners u"
  shows "inProgress opts before (emitFile f (st, u'))"
  using assms
  by (simp add: inProgress_def emitFile_eq settleUpload_result)

lemma inProgress_step:
  assumes "inProgress opts before su"
  shows "inProgress opts before (uploadStep su ev)"
proof -
  obtain st u where su: "su = (st, u)" by (cases su)
  have i: "inProgress opts before (st, u)" using assms su by simp
  have e1: "errorListeners u = 1" and f1: "finishListeners u \<le> 1"
    using i by (simp_all add: inProgress_def)
  show ?thesis
  proof (cases ev)
    case (WriterError err)
    then show ?thesis unfolding su using inProgress_emitError [OF i, of u err] e1 by simp
  next
    case WriterEnd
    then show ?thesis unfolding su using i by (simp add: inProgress_def)
  next
    case (WriterFinish f)
    have "finishListeners u = 0 \<or> finishListeners u = 1" using f1 by auto
    then show ?thesis unfolding su WriterFinish using inProgress_emitFile [OF i, of u f] i by auto
  next
    case (OpenDone r)
    show ?thesis
    proof (cases r)
      case None
      then show ?thesis unfolding su OpenDone using i by (simp add: inProgress_def)
    next
      case (Some err)
      then show ?thesis unfolding su OpenDone
        using inProgress_emitError [OF i, of "u\<lparr>openPending := False\<rparr>" err] i by simp
    qed
  next
    case (CloseDone r f)
    show ?thesis
    proof (cases r)
      case None
      then show ?thesis unfolding su CloseDone
        using inProgress_emitFile [OF i, of "u\<lparr>closePending := closePending u - 1\<rparr>" f] i by simp
    next
      case (Some err)
      then show ?thesis unfolding su CloseDone
        using inProgress_emitError [OF i, of "u\<lparr>closePending := closePending u - 1\<rparr>" err] i by simp
    qed
  qed
qed

lemma inProgress_run:
  "inProgress opts before su \<Longrightarrow> inProgress opts before (uploadRun su evs)"
  unfolding uploadRun_def
  by (induction evs arbitrary: su) (simp_all add: inProgress_step)

lemma inProgress_start: "inProgress opts (emitted st) (st, startUpload st opts)"
  by (simp add: inProgress_def startUpload_def Let_def)





lemma sameWiring_refl [simp]: "sameWiring u u"
  by (simp add: sameWiring_def)

lemma sameWiring_emitError: "sameWiring u (snd (emitError err (st, u)))"
  by (simp add: sameWiring_def emitError_eq)

lemma sameWiring_emitFile: "sameWiring u (snd (emitFile f (st, u)))"
  by (simp add: sameWiring_def emitFile_eq)

lemma sameWiring_funpow_error: "sameWiring (snd su) (snd ((emitError err ^^ n) su))"
proof (induction n)
  case 0
  show ?case by simp
next
  case (Suc n)
  obtain st u where r: "(emitError err ^^ n) su = (st, u)" by (cases "(emitError err ^^ n) su")
  show ?case using Suc sameWiring_emitError [of u err st]
    by (simp add: r sameWiring_def)
qed

lemma sameWiring_funpow_file: "sameWiring (snd su) (snd ((emitFile f ^^ n) su))"
proof (induction n)
  case 0
  show ?case by simp
next
  case (Suc n)
  obtain st u where r: "(emitFile f ^^ n) su = (st, u)" by (cases "(emitFile f ^^ n) su")
  show ?case using Suc sameWiring_emitFile [of u f st]
    by (simp add: r sameWiring_def)
qed

lemma uploadRun_snoc: "uploadRun su (evs @ [ev]) = uploadStep (uploadRun su evs) ev"
  by (simp add: uploadRun_def)

lemma legacyUpload_sameWiring:
  "legacyUpload evs u \<Longrightarrow> sameWiring u u' \<Longrightarrow> legacyUpload (evs @ [ev]) u'"
  by (simp add: legacyUpload_def sameWiring_def split: if_splits)

lemma legacyUpload_step:
  assumes "legacyUpload evs (snd su)"
  shows "legacyUpload (evs @ [ev]) (snd (uploadStep su ev))"
proof -
  obtain st u where su: "su = (st, u)" by (cases su)
  have l: "legacyUpload evs u" using assms su by simp
  show ?thesis
  proof (cases ev)
    case (WriterError err)
    show ?thesis unfolding su WriterError
      using legacyUpload_sameWiring [OF l] sameWiring_funpow_error [where su = "(st, u)" and err = err] by simp
  next
    case WriterEnd
    show ?thesis unfolding su WriterEnd
      using l by (simp add: legacyUpload_def split: if_splits)
  next
    case (WriterFinish f)
    show ?thesis unfolding su WriterFinish
      using legacyUpload_sameWiring [OF l] sameWiring_funpow_file [where su = "(st, u)" and f = f] by simp
  next
    case (OpenDone r)
    show ?thesis
    proof (cases "openPending u")
      case False
      then show ?thesis unfolding su OpenDone
        using legacyUpload_sameWiring [OF l, of u] by simp
    next
      case True
      then have np: "\<not> piping u" using l by (auto simp: legacyUpload_def split: if_splits)
      show ?thesis
      proof (cases r)
        case None
        then show ?thesis unfolding su OpenDone using True l np
          by (simp add: legacyUpload_def)
      next
        case (Some err)
        have "legacyUpload (evs @ [ev]) (u\<lparr>openPending := False\<rparr>)"
          using l np by (simp add: legacyUpload_def)
        then show ?thesis unfolding su OpenDone Some using True np
          by (simp add: emitError_eq legacyUpload_def split: if_splits)
      qed
    qed
  next
    case (CloseDone r f)
    have "legacyUpload (evs @ [ev]) (u\<lparr>closePending := closePending u - 1\<rparr>)"
      using l by (simp add: legacyUpload_def split: if_splits)
    then have a: "legacyUpload (evs @ [ev]) (snd (emitError err (st, u\<lparr>closePending := closePending u - 1\<rparr>)))"
      and b: "legacyUpload (evs @ [ev]) (snd (emitFile f (st, u\<lparr>closePending := closePending u - 1\<rparr>)))"
      for err
      by (simp_all add: emitError_eq emitFile_eq legacyUpload_def split: if_splits)
    show ?thesis
    proof (cases "0 < closePending u")
      case False
      then show ?thesis unfolding su CloseDone
        using legacyUpload_sameWiring [OF l, of u] by simp
    next
      case True
      then show ?thesis unfolding su CloseDone using a b CloseDone
        by (cases r) simp_all
    qed
  qed
qed

lemma legacyUpload_run:
  "legacy st \<Longrightarrow> legacyUpload evs (snd (uploadRun (st, startUpload st opts) evs))"
proof (induction evs rule: rev_induct)
  case Nil
  then show ?case by (simp add: uploadRun_def legacyUpload_def startUpload_def Let_def)
next
  case (snoc ev evs)
  then show ?case unfolding uploadRun_snoc by (intro legacyUpload_step) simp
qed

lemma modernUpload_step:
  assumes "modernUpload (snd su)"
  shows "modernUpload (snd (uploadStep su ev))"
proof -
  obtain st u where su: "su = (st, u)" by (cases su)
  have m: "modernUpload u" using assms su by simp
  have w: "modernUpload u'" if "sameWiring u u'" for u'
    using m that by (simp add: modernUpload_def sameWiring_def)
  show ?thesis
  proof (cases ev)
    case (WriterError err)
    show ?thesis unfolding su WriterError
      using w sameWiring_funpow_error [where su = "(st, u)" and err = err] by simp
  next
    case WriterEnd
    show ?thesis unfolding su WriterEnd using m by (simp add: modernUpload_def)
  next
    case (WriterFinish f)
    show ?thesis unfolding su WriterFinish
      using w sameWiring_funpow_file [where su = "(st, u)" and f = f] by simp
  next
    case (OpenDone r)
    show ?thesis unfolding su OpenDone using m by (simp add: modernUpload_def)
  next
    case (CloseDone r f)
    show ?thesis unfolding su CloseDone using m by (simp add: modernUpload_def)
  qed
qed

lemma modernUpload_run:
  "\<not> legacy st \<Longrightarrow> modernUpload (snd (uploadRun (st, startUpload st opts) evs))"
proof (induction evs rule: rev_induct)
  case Nil
  then show ?case by (simp add: uploadRun_def modernUpload_def startUpload_def Let_def)
next
  case (snoc ev evs)
  then show ?case unfolding uploadRun_snoc by (intro modernUpload_step) simp
qed

lemma success_resolves:
  assumes "inProgress opts before (st, u)" "upResult u = Pending"
    and "upOptions u' = upOptions u" "upResult u' = upResult u"
  shows "upResult (snd (emitFile f (st, u'))) = Resolved (storedFile opts f) \<and>
         emitted (fst (emitFile f (st, u'))) = before @ [File (storedFile opts f)]"
  using assms by (simp add: inProgress_def emitFile_eq settleUpload_result emit_emitted)

text \<open>
  C7. On the legacy path the upload starts with \<^verbatim>\<open>store.open\<close> outstanding and no
  piping; whatever happens, \<^verbatim>\<open>pump\<close> has been called only if \<^verbatim>\<open>store.open\<close> succeeded
  before; the success of \<^verbatim>\<open>store.open\<close> starts the piping and its failure does not; the
  end event of the writer, which follows the end of the piped source, issues one
  \<^verbatim>\<open>store.close\<close> once the piping has started; the file information that the close
  returns resolves the promise and is emitted as the file signal; a finish event does
  nothing. On the modern path the piping starts at once without any open, no close is
  ever issued, and the finish event of the writer resolves the promise and emits the
  file signal.
\<close>

theorem legacy_opens_before_piping:
  "(legacy st \<longrightarrow>
      openPending (startUpload st opts) \<and> \<not> piping (startUpload st opts) \<and>
      (piping (snd (uploadRun (st, startUpload st opts) evs)) \<longrightarrow> OpenDone None \<in> set evs) \<and>
      piping (snd (uploadStep (st, startUpload st opts) (OpenDone None))) \<and>
      \<not> piping (snd (uploadStep (st, startUpload st opts) (OpenDone (Some err)))) \<and>
      closePending (snd (uploadStep (uploadRun (st, startUpload st opts) evs) WriterEnd)) =
        closePending (snd (uploadRun (st, startUpload st opts) evs)) +
        (if piping (snd (uploadRun (st, startUpload st opts) evs)) then 1 else 0) \<and>
      uploadStep (uploadRun (st, startUpload st opts) evs) (WriterFinish f) =
        uploadRun (st, startUpload st opts) evs \<and>
      (upResult (snd (uploadRun (st, startUpload st opts) evs)) = Pending \<and>
       0 < closePending (snd (uploadRun (st, startUpload st opts) evs)) \<longrightarrow>
         upResult (snd (uploadStep (uploadRun (st, startUpload st opts) evs) (CloseDone None f))) =
           Resolved (storedFile opts f) \<and>
         emitted (fst (uploadStep (uploadRun (st, startUpload st opts) evs) (CloseDone None f))) =
           emitted st @ [File (storedFile opts f)]))
   \<and> (\<not> legacy st \<longrightarrow>
      piping (startUpload st opts) \<and> \<not> openPending (startUpload st opts) \<and>
      closePending (snd (uploadRun (st, startUpload st opts) evs)) = 0 \<and>
      \<not> openPending (snd (uploadRun (st, startUpload st opts) evs)) \<and>
      (upResult (snd (uploadRun (st, startUpload st opts) evs)) = Pending \<longrightarrow>
         upResult (snd (uploadStep (uploadRun (st, startUpload st opts) evs) (WriterFinish f))) =
           Resolved (storedFile opts f) \<and>
         emitted (fst (uploadStep (uploadRun (st, startUpload st opts) evs) (WriterFinish f))) =
           emitted st @ [File (storedFile opts f)]))"
proof -
  let ?su = "uploadRun (st, startUpload st opts) evs"
  obtain st' u where su: "?su = (st', u)" by (cases ?su)
  have i: "inProgress opts (emitted st) (st', u)"
    using inProgress_run [OF inProgress_start, of opts st evs] su by simp
  show ?thesis
  proof (intro conjI impI)
    assume l: "legacy st"
    have inv: "legacyUpload evs u" using legacyUpload_run [OF l, of evs opts] su by simp
    show "openPending (startUpload st opts)" "\<not> piping (startUpload st opts)"
      "piping (snd (uploadStep (st, startUpload st opts) (OpenDone None)))"
      using l by (simp_all add: startUpload_def Let_def)
    show "\<not> piping (snd (uploadStep (st, startUpload st opts) (OpenDone (Some err))))"
      using l by (simp add: startUpload_def Let_def emitError_eq)
    show "OpenDone None \<in> set evs" if "piping (snd ?su)"
      using inv that su by (simp add: legacyUpload_def)
    show "closePending (snd (uploadStep ?su WriterEnd)) =
            closePending (snd ?su) + (if piping (snd ?su) then 1 else 0)"
      unfolding su using inv by (simp add: legacyUpload_def)
    show "uploadStep ?su (WriterFinish f) = ?su"
      unfolding su using inv by (simp add: legacyUpload_def)
    {
      assume h: "upResult (snd ?su) = Pending \<and> 0 < closePending (snd ?su)"
      then have p: "upResult u = Pending" and c: "0 < closePending u" using su by simp_all
      note r = success_resolves [OF i p, of "u\<lparr>closePending := closePending u - 1\<rparr>" f]
      show "upResult (snd (uploadStep ?su (CloseDone None f))) = Resolved (storedFile opts f)"
        unfolding su using r c by simp
      show "emitted (fst (uploadStep ?su (CloseDone None f))) = emitted st @ [File (storedFile opts f)]"
        unfolding su using r c by simp
    }
  next
    assume m: "\<not> legacy st"
    have inv: "modernUpload u" using modernUpload_run [OF m, of opts evs] su by simp
    show "piping (startUpload st opts)" "\<not> openPending (startUpload st opts)"
      using m by (simp_all add: startUpload_def Let_def)
    show "closePending (snd ?su) = 0" "\<not> openPending (snd ?su)"
      using inv su by (simp_all add: modernUpload_def)
    {
      assume "upResult (snd ?su) = Pending"
      then have p: "upResult u = Pending" using su by simp
      note r = success_resolves [OF i p, of u f]
      have one: "finishListeners u = 1" using inv by (simp add: modernUpload_def)
      show "upResult (snd (uploadStep ?su (WriterFinish f))) = Resolved (storedFile opts f)"
        unfolding su using r one by simp
      show "emitted (fst (uploadStep ?su (WriterFinish f))) = emitted st @ [File (storedFile opts f)]"
        unfolding su using r one by simp
    }
  qed
qed

theorem legacy_opens_before_piping_witness:
  "\<not> piping (startUpload legacy0 options0)
   \<and> piping (snd (uploadStep (legacy0, startUpload legacy0 options0) (OpenDone None)))
   \<and> closePending (snd (uploadRun (legacy0, startUpload legacy0 options0) [OpenDone None, WriterEnd])) = 1
   \<and> upResult (snd (uploadRun (legacy0, startUpload legacy0 options0)
                      [OpenDone None, WriterEnd, CloseDone None fileInfo0]))
       = Resolved (storedFile options0 fileInfo0)
   \<and> piping (startUpload connected0 options0)
   \<and> upResult (snd (uploadRun (connected0, startUpload connected0 options0) [WriterFinish fileInfo0]))
       = Resolved (storedFile options0 fileInfo0)"
proof -
  have m: "\<not> legacy connected0" and l: "legacy legacy0"
    by (simp_all add: legacy0_def connected0_eq connecting0_def newStorage_def)
  note a = legacy_opens_before_piping [of legacy0 options0 "[OpenDone None]" _ fileInfo0]
  note b = legacy_opens_before_piping [of legacy0 options0 "[OpenDone None, WriterEnd]" _ fileInfo0]
  note c = legacy_opens_before_piping [of connected0 options0 "[]" _ fileInfo0]
  have r1: "uploadRun (legacy0, startUpload legacy0 options0) [OpenDone None, WriterEnd] =
            uploadStep (uploadRun (legacy0, startUpload legacy0 options0) [OpenDone None]) WriterEnd"
    and r2: "uploadRun (legacy0, startUpload legacy0 options0) [OpenDone None, WriterEnd, CloseDone None fileInfo0] =
            uploadStep (uploadRun (legacy0, startUpload legacy0 options0) [OpenDone None, WriterEnd])
              (CloseDone None fileInfo0)"
    and r3: "uploadRun (connected0, startUpload connected0 options0) [WriterFinish fileInfo0] =
            uploadStep (uploadRun (connected0, startUpload connected0 options0) []) (WriterFinish fileInfo0)"
    and r0: "uploadRun (legacy0, startUpload legacy0 options0) [OpenDone None] =
            uploadStep (legacy0, startUpload legacy0 options0) (OpenDone None)"
    by (simp_all add: uploadRun_def)
  have s0: "piping (snd (uploadRun (legacy0, startUpload legacy0 options0) [OpenDone None]))"
    "closePending (snd (uploadRun (legacy0, startUpload legacy0 options0) [OpenDone None])) = 0"
    using l by (simp_all add: uploadRun_def startUpload_def Let_def)
  have 1: "\<not> piping (startUpload legacy0 options0)"
    and 2: "piping (snd (uploadStep (legacy0, startUpload legacy0 options0) (OpenDone None)))"
    using a l by blast+
  have 3: "closePending (snd (uploadRun (legacy0, startUpload legacy0 options0) [OpenDone None, WriterEnd])) = 1"
    unfolding r1 using a l s0 by simp
  have p: "upResult (snd (uploadRun (legacy0, startUpload legacy0 options0) [OpenDone None, WriterEnd])) = Pending"
    using l by (simp add: uploadRun_def startUpload_def Let_def)
  have 4: "upResult (snd (uploadRun (legacy0, startUpload legacy0 options0)
                      [OpenDone None, WriterEnd, CloseDone None fileInfo0]))
       = Resolved (storedFile options0 fileInfo0)"
    unfolding r2 using b l p 3 by simp
  have 5: "piping (startUpload connected0 options0)" using c m by blast
  have p': "upResult (snd (uploadRun (connected0, startUpload connected0 options0) [])) = Pending"
    using m by (simp add: uploadRun_def startUpload_def Let_def)
  have 6: "upResult (snd (uploadRun (connected0, startUpload connected0 options0) [WriterFinish fileInfo0]))
       = Resolved (storedFile options0 fileInfo0)"
    unfolding r3 using c m p' by simp
  show ?thesis using 1 2 3 4 5 6 by simp
qed

end
